theory Spec2Isabelle
  imports Complex_Main
begin

section \<open>Continuum estimators of \<^verbatim>\<open>statcont/cont_finding.py\<close>\<close>

text \<open>
  The module is a set of pure functions over a one-dimensional flux array. The embedding
  reads a float64 as an exact \<^typ>\<open>real\<close> (rounding is not modelled), a float that may be
  NaN as a \<^typ>\<open>real option\<close> with \<open>None\<close> for NaN, an array as a list and an exception as
  the left injection of a sum.
\<close>

subsection \<open>Errors and Python indexing\<close>

text \<open>
  The first four constructors are the exceptions the source can raise (all of them come
  from NumPy or from the interpreter: the module has no \<^verbatim>\<open>raise\<close> statement). The last
  three are the error kinds the specification names; no line of the source raises them.
\<close>

datatype error =
    ValueError | IndexError | OverflowError | UnboundLocalError
  | EmptyFluxError | DegenerateWindowError | FitDidNotConvergeError

type_synonym npfloat = "real option"

definition err_bind :: "error + 'a \<Rightarrow> ('a \<Rightarrow> error + 'b) \<Rightarrow> error + 'b" where
  "err_bind m f = (case m of Inl e \<Rightarrow> Inl e | Inr x \<Rightarrow> f x)"

text \<open>\<^verbatim>\<open>xs[i]\<close>: a negative index counts from the end, an index out of range raises.\<close>

definition py_get :: "'a list \<Rightarrow> int \<Rightarrow> error + 'a" where
  "py_get xs i =
     (if 0 \<le> i \<and> i < int (length xs) then Inr (xs ! nat i)
      else if i < 0 \<and> - int (length xs) \<le> i then Inr (xs ! nat (int (length xs) + i))
      else Inl IndexError)"

text \<open>\<^verbatim>\<open>xs[i:j]\<close>: negative bounds count from the end, then both are clamped to the list.\<close>

definition py_slice_bound :: "nat \<Rightarrow> int \<Rightarrow> nat" where
  "py_slice_bound n k = (if k < 0 then nat (max 0 (int n + k)) else min n (nat k))"

definition py_slice :: "'a list \<Rightarrow> int \<Rightarrow> int \<Rightarrow> 'a list" where
  "py_slice xs i j =
     (let a = py_slice_bound (length xs) i; b = py_slice_bound (length xs) j
      in take (b - a) (drop a xs))"

text \<open>\<^verbatim>\<open>int(x)\<close> on a finite float truncates towards zero.\<close>

definition py_int :: "real \<Rightarrow> int" where
  "py_int x = (if 0 \<le> x then \<lfloor>x\<rfloor> else \<lceil>x\<rceil>)"

subsection \<open>The NumPy primitives\<close>

text \<open>
  Modelled from the spec: the external primitives \<^verbatim>\<open>np.amax\<close> and \<^verbatim>\<open>np.amin\<close> (section 4.1,
  \<open>max(flux)\<close> and \<open>min(flux)\<close>), as NumPy documents them: a zero-size array raises
  ValueError.
\<close>

definition np_amax :: "real list \<Rightarrow> error + real" where
  "np_amax xs = (case xs of [] \<Rightarrow> Inl ValueError | x # ys \<Rightarrow> Inr (fold max ys x))"

definition np_amin :: "real list \<Rightarrow> error + real" where
  "np_amin xs = (case xs of [] \<Rightarrow> Inl ValueError | x # ys \<Rightarrow> Inr (fold min ys x))"

text \<open>
  Modelled from the spec: the external primitives \<^verbatim>\<open>np.mean\<close> and \<^verbatim>\<open>np.std\<close> (sections 4.3,
  4.7 and 4.8, the arithmetic mean and the standard deviation), as NumPy documents them:
  the standard deviation is the population one (divisor \<open>n\<close>), and both are NaN on an empty
  array.
\<close>

definition np_mean :: "real list \<Rightarrow> npfloat" where
  "np_mean xs = (if xs = [] then None else Some (sum_list xs / real (length xs)))"

definition np_std :: "real list \<Rightarrow> npfloat" where
  "np_std xs =
     (case np_mean xs of None \<Rightarrow> None
      | Some m \<Rightarrow> Some (sqrt (sum_list (map (\<lambda>x. (x - m)\<^sup>2) xs) / real (length xs))))"

text \<open>
  Modelled from the spec: the external primitive \<^verbatim>\<open>np.median\<close> (section 4.4, "the median
  statistic"), as NumPy documents it: the middle element of the sorted array, the mean of
  the two middle elements when the length is even, NaN on an empty array.
\<close>

definition np_median :: "real list \<Rightarrow> npfloat" where
  "np_median xs =
     (let s = sort xs; n = length xs
      in if n = 0 then None
         else if odd n then Some (s ! (n div 2))
         else Some ((s ! (n div 2 - 1) + s ! (n div 2)) / 2))"

text \<open>
  Modelled from the spec: the external primitive \<^verbatim>\<open>np.percentile\<close> (section 6, "given an
  array and a percentile in [0,100], returns the interpolated value"), with NumPy's default
  linear interpolation: the virtual index \<open>q / 100 * (n - 1)\<close> into the sorted array, the
  value interpolated between its two neighbours. A percentile outside \<open>[0, 100]\<close> raises
  ValueError; an empty array gives NaN.
\<close>

definition np_percentile :: "real list \<Rightarrow> real \<Rightarrow> error + npfloat" where
  "np_percentile xs q =
     (if q < 0 \<or> 100 < q then Inl ValueError
      else if xs = [] then Inr None
      else (let s = sort xs; n = length xs;
                idx = q / 100 * real (n - 1);
                lo = nat \<lfloor>idx\<rfloor>;
                hi = min (lo + 1) (n - 1);
                t = idx - real lo
            in Inr (Some (s ! lo + t * (s ! hi - s ! lo)))))"

text \<open>
  Modelled from the spec: the external primitive \<^verbatim>\<open>np.histogram(a, bins)\<close> with an integer
  bin count (section 6, "given an array and bin count, returns per-bin counts and edges";
  section 4.1 step 2, equal-width bins spanning \<open>[min, max]\<close>), as NumPy documents it:
  a bin count below 1 raises ValueError; the range is \<open>(min a, max a)\<close>, \<open>(0, 1)\<close> for an
  empty array, widened by one half on each side when both ends coincide; the \<open>bins + 1\<close>
  edges are equally spaced; every bin is half-open but the last, which includes its right
  edge.
\<close>

definition hist_range :: "real list \<Rightarrow> real \<times> real" where
  "hist_range a =
     (case a of [] \<Rightarrow> (0, 1)
      | x # xs \<Rightarrow>
          (let mn = fold min xs x; mx = fold max xs x
           in if mn = mx then (mn - 1 / 2, mx + 1 / 2) else (mn, mx)))"

definition bin_of :: "real \<Rightarrow> real \<Rightarrow> nat \<Rightarrow> real \<Rightarrow> nat" where
  "bin_of lo hi n x = (if x = hi then n - 1 else nat \<lfloor>(x - lo) * real n / (hi - lo)\<rfloor>)"

definition np_histogram :: "real list \<Rightarrow> int \<Rightarrow> error + (nat list \<times> real list)" where
  "np_histogram a bins =
     (if bins < 1 then Inl ValueError
      else (let n = nat bins; lo = fst (hist_range a); hi = snd (hist_range a);
                edges = map (\<lambda>i. lo + real i * (hi - lo) / real n) [0..<n + 1];
                hist = map (\<lambda>i. length (filter (\<lambda>x. bin_of lo hi n x = i) a)) [0..<n]
            in Inr (hist, edges)))"

text \<open>\<^verbatim>\<open>np.where(mask)[0]\<close> over an array of length \<open>n\<close>: the indices where the mask holds.\<close>

definition np_where :: "(nat \<Rightarrow> bool) \<Rightarrow> nat \<Rightarrow> nat list" where
  "np_where P n = filter P [0..<n]"

text \<open>\<^verbatim>\<open>.max()\<close> and \<^verbatim>\<open>.min()\<close> of an integer array: ValueError when it is empty.\<close>

definition arr_max :: "nat list \<Rightarrow> error + nat" where
  "arr_max xs = (case xs of [] \<Rightarrow> Inl ValueError | x # ys \<Rightarrow> Inr (fold max ys x))"

definition arr_min :: "nat list \<Rightarrow> error + nat" where
  "arr_min xs = (case xs of [] \<Rightarrow> Inl ValueError | x # ys \<Rightarrow> Inr (fold min ys x))"

subsection \<open>\<^verbatim>\<open>cont_histo\<close>\<close>

text \<open>
  Line 275. The quotient is a NumPy float: a zero divisor gives \<open>inf\<close> (or NaN for
  \<open>0 / 0\<close>) and \<^verbatim>\<open>int\<close> then raises OverflowError (or ValueError).
\<close>

definition number_bins_of :: "real list \<Rightarrow> real \<Rightarrow> error + int" where
  "number_bins_of flux rms_noise =
     err_bind (np_amax flux) (\<lambda>mx.
     err_bind (np_amin flux) (\<lambda>mn.
       if 2 * rms_noise = 0 then Inl (if mx - mn = 0 then ValueError else OverflowError)
       else Inr (py_int ((mx - mn) / (2 * rms_noise)))))"

text \<open>
  Lines 276 to 278: the histogram, and the bin centres. Line 278 reads \<^verbatim>\<open>all_bins[1]\<close>
  of the array of left edges once per element, so a histogram of one bin raises IndexError.
\<close>

definition all_histogram :: "real list \<Rightarrow> real \<Rightarrow> error + (int \<times> nat list \<times> real list \<times> real list)" where
  "all_histogram flux rms_noise =
     err_bind (number_bins_of flux rms_noise) (\<lambda>n.
     err_bind (np_histogram flux n) (\<lambda>(hist, edges).
       let left_edges = take (length edges - 1) edges
       in if left_edges = [] then Inr (n, hist, edges, [])
          else err_bind (py_get left_edges 1) (\<lambda>e1.
               err_bind (py_get left_edges 0) (\<lambda>e0.
                 Inr (n, hist, edges, map (\<lambda>x. x + (e1 - e0) / 2) left_edges)))))"

text \<open>
  Lines 279 to 281: the peak, the lowest index of a maximal count, and its bin centre.
  \<open>bin_width\<close> is the expression \<^verbatim>\<open>all_bins[1]-all_bins[0]\<close> over the centres, which the
  source writes out at each use.
\<close>

record peak =
  number_bins :: int
  all_hist :: "nat list"
  all_bin_edges :: "real list"
  all_bins :: "real list"
  all_number_max :: nat
  bin_width :: real
  all_bins_max :: real

definition find_peak :: "real list \<Rightarrow> real \<Rightarrow> error + peak" where
  "find_peak flux rms_noise =
     err_bind (all_histogram flux rms_noise) (\<lambda>(n, hist, edges, bins).
     err_bind (arr_max hist) (\<lambda>hmax.
     err_bind (py_get (np_where (\<lambda>i. hist ! i = hmax) (length hist)) 0) (\<lambda>m.
     err_bind (py_get edges (int m)) (\<lambda>em.
     err_bind (py_get bins 1) (\<lambda>b1.
     err_bind (py_get bins 0) (\<lambda>b0.
       Inr \<lparr>number_bins = n, all_hist = hist, all_bin_edges = edges, all_bins = bins,
            all_number_max = m, bin_width = b1 - b0,
            all_bins_max = em + (b1 - b0) / 2\<rparr>))))))"

text \<open>
  Lines 285 to 288: the zero-count boundaries on each side of the peak and the ratio.
  The division is a float division: \<open>0 / 0\<close> is NaN, not an exception.
\<close>

definition all_number_left :: "peak \<Rightarrow> error + nat" where
  "all_number_left p =
     err_bind (py_get (all_bins p) 0) (\<lambda>b0.
       arr_max (np_where (\<lambda>i. (all_hist p ! i = 0 \<and> all_bins p ! i \<le> all_bins_max p)
                               \<or> all_bins p ! i = b0) (length (all_bins p))))"

definition all_number_right :: "peak \<Rightarrow> error + nat" where
  "all_number_right p =
     err_bind (py_get (all_bins p) (number_bins p - 1)) (\<lambda>bl.
       arr_min (np_where (\<lambda>i. (all_hist p ! i = 0 \<and> all_bins p ! i \<ge> all_bins_max p)
                               \<or> all_bins p ! i = bl) (length (all_bins p))))"

definition ratio_of :: "nat \<Rightarrow> nat \<Rightarrow> nat \<Rightarrow> npfloat" where
  "ratio_of l r m =
     (let all_number_total = \<bar>int r - int m\<bar> + \<bar>int l - int m\<bar>
      in if all_number_total = 0 then None
         else Some (real_of_int \<bar>int r - int m\<bar> * 1 / (real_of_int all_number_total * 1)))"

text \<open>
  Lines 289 to 297: three independent \<^verbatim>\<open>if\<close> statements assign the flux bounds, a later
  one overwriting an earlier one. Every comparison with NaN is false, and the bounds are
  then left unassigned.
\<close>

definition window_bounds :: "npfloat \<Rightarrow> real \<Rightarrow> real \<Rightarrow> (real \<times> real) option" where
  "window_bounds ratio bmax w =
     (let ge = (\<lambda>c. case ratio of None \<Rightarrow> False | Some r \<Rightarrow> r \<ge> c);
          le = (\<lambda>c. case ratio of None \<Rightarrow> False | Some r \<Rightarrow> r \<le> c);
          gt = (\<lambda>c. case ratio of None \<Rightarrow> False | Some r \<Rightarrow> r > c);
          lt = (\<lambda>c. case ratio of None \<Rightarrow> False | Some r \<Rightarrow> r < c);
          b1 = (if ge (66 / 100) then Some (bmax - 8 * w, bmax + 4 * w) else None);
          b2 = (if le (33 / 100) then Some (bmax - 4 * w, bmax + 8 * w) else b1);
          b3 = (if gt (33 / 100) \<and> lt (66 / 100) then Some (bmax - 5 * w, bmax + 5 * w) else b2)
      in b3)"

text \<open>
  Lines 298 to 302: the indices of the bin centres inside the bounds; with fewer than three
  of them, the five indices around the first one, and the bounds read from the list of
  centres at the first and the last of the five (a Python list: a negative index counts
  from the end, an index out of range raises IndexError).
\<close>

record window =
  lower_all_bins :: real
  upper_all_bins :: real
  sel_bins_array :: "int list"

definition fallback_window :: "real list \<Rightarrow> int list \<Rightarrow> error + window" where
  "fallback_window bins sel =
     err_bind (py_get sel 0) (\<lambda>s0.
       let sel' = [s0 - 2, s0 - 1, s0, s0 + 1, s0 + 2]
       in err_bind (py_get sel' 0) (\<lambda>i0.
          err_bind (py_get bins i0) (\<lambda>lo.
          err_bind (py_get sel' (int (length sel') - 1)) (\<lambda>i4.
          err_bind (py_get bins i4) (\<lambda>hi.
            Inr \<lparr>lower_all_bins = lo, upper_all_bins = hi, sel_bins_array = sel'\<rparr>)))))"

definition select_window :: "peak \<Rightarrow> (real \<times> real) option \<Rightarrow> error + window" where
  "select_window p bounds =
     (case bounds of
        None \<Rightarrow> Inl UnboundLocalError
      | Some (lo, hi) \<Rightarrow>
          (let sel = map int (np_where (\<lambda>i. all_bins p ! i \<ge> lo \<and> all_bins p ! i \<le> hi)
                                       (length (all_bins p)))
           in if length sel < 3 then fallback_window (all_bins p) sel
              else Inr \<lparr>lower_all_bins = lo, upper_all_bins = hi, sel_bins_array = sel\<rparr>))"

text \<open>
  The state of \<^verbatim>\<open>cont_histo\<close> after line 297 (the peak, the ratio and the flux bounds, if
  one of the three statements assigned them) and after line 302 (with the window).
\<close>

definition cont_histo_bounds ::
  "real list \<Rightarrow> real \<Rightarrow> error + (peak \<times> npfloat \<times> (real \<times> real) option)" where
  "cont_histo_bounds flux rms_noise =
     err_bind (find_peak flux rms_noise) (\<lambda>p.
     err_bind (all_number_left p) (\<lambda>l.
     err_bind (all_number_right p) (\<lambda>r.
       let emission_absorption_ratio = ratio_of l r (all_number_max p)
       in Inr (p, emission_absorption_ratio,
               window_bounds emission_absorption_ratio (all_bins_max p) (bin_width p)))))"

definition cont_histo_window :: "real list \<Rightarrow> real \<Rightarrow> error + (peak \<times> npfloat \<times> window)" where
  "cont_histo_window flux rms_noise =
     err_bind (cont_histo_bounds flux rms_noise) (\<lambda>(p, emission_absorption_ratio, bounds).
     err_bind (select_window p bounds) (\<lambda>w.
       Inr (p, emission_absorption_ratio, w)))"

text \<open>Lines 303 to 307: the two slices, the flux samples inside the bounds, the result.\<close>

definition cont_histo ::
  "real list \<Rightarrow> real \<Rightarrow> error + (real list \<times> nat list \<times> real list \<times> nat list \<times> real list)" where
  "cont_histo flux rms_noise =
     err_bind (cont_histo_window flux rms_noise) (\<lambda>(p, ratio, w).
     err_bind (py_get (sel_bins_array w) 0) (\<lambda>first.
     err_bind (py_get (sel_bins_array w) (int (length (sel_bins_array w)) - 1)) (\<lambda>last.
       Inr (all_bins p, all_hist p,
            py_slice (all_bins p) first (last + 1),
            py_slice (all_hist p) first (last + 1),
            filter (\<lambda>x. x \<ge> lower_all_bins w \<and> x \<le> upper_all_bins w) flux))))"

subsection \<open>The estimators\<close>

definition c_max :: "real list \<Rightarrow> real \<Rightarrow> error + real" where
  "c_max flux rms_noise =
     err_bind (cont_histo flux rms_noise) (\<lambda>(all_bins, all_hist, sel_bins, sel_hist, sel_flux).
     err_bind (arr_max all_hist) (\<lambda>hmax.
     err_bind (py_get (np_where (\<lambda>i. all_hist ! i = hmax) (length all_hist)) 0) (\<lambda>m.
       py_get all_bins (int m))))"

definition c_mean :: "real list \<Rightarrow> real \<Rightarrow> error + (npfloat \<times> npfloat)" where
  "c_mean flux rms_noise =
     err_bind (cont_histo flux rms_noise) (\<lambda>(all_bins, all_hist, sel_bins, sel_hist, sel_flux).
       Inr (np_mean flux, np_mean sel_flux))"

definition c_median :: "real list \<Rightarrow> real \<Rightarrow> error + (npfloat \<times> npfloat)" where
  "c_median flux rms_noise =
     err_bind (cont_histo flux rms_noise) (\<lambda>(all_bins, all_hist, sel_bins, sel_hist, sel_flux).
       Inr (np_median flux, np_median sel_flux))"

definition c_percent :: "real list \<Rightarrow> real \<Rightarrow> error + npfloat" where
  "c_percent flux percentile = np_percentile flux percentile"

text \<open>
  \<^verbatim>\<open>c_Gaussian\<close>. The least-squares routine of SciPy is a parameter: \<open>leastsq init (x, y)\<close>
  stands for \<^verbatim>\<open>leastsq(errfunc, init, args=(x, y))\<close> with the residual function of
  line 173, and returns the pair \<^verbatim>\<open>(solution, ier)\<close>, where the integer flag \<open>ier\<close> tells
  whether a solution was found (1 to 4) or not.
\<close>

type_synonym params = "npfloat \<times> npfloat \<times> npfloat"

type_synonym leastsq = "params \<Rightarrow> real list \<times> nat list \<Rightarrow> params \<times> int"

definition c_Gaussian ::
  "leastsq \<Rightarrow> real list \<Rightarrow> real \<Rightarrow> error + (npfloat \<times> npfloat \<times> npfloat \<times> npfloat)" where
  "c_Gaussian leastsq flux rms_noise =
     err_bind (cont_histo flux rms_noise) (\<lambda>(all_bins, all_hist, sel_bins, sel_hist, sel_flux).
       let meansel_flux = np_mean sel_flux;
           meansel_sigma = np_std sel_flux
       in err_bind (arr_max all_hist) (\<lambda>hmax.
            let init = (Some (real hmax), meansel_flux, meansel_sigma);
                out = leastsq init (all_bins, all_hist);
                c = fst out;
                Gaussian_flux = fst (snd c);
                Gaussian_noise = snd (snd c)
            in err_bind (arr_max all_hist) (\<lambda>hmax'.
                 let init' = (Some (real hmax'), meansel_flux, meansel_sigma);
                     out' = leastsq init' (sel_bins, sel_hist);
                     d = fst out';
                     GaussNw_flux = fst (snd d);
                     GaussNw_noise = snd (snd d)
                 in Inr (Gaussian_flux, Gaussian_noise, GaussNw_flux, GaussNw_noise))))"

text \<open>
  \<^verbatim>\<open>c_sigmaclip\<close>. The sigma-clipping routine of Astropy is a parameter: \<open>sigma_clip flux
  threshold\<close> is the list of the samples that survive (the entries of the masked array that
  are not masked); both branches of the version test of line 219 make the same call.
  Arithmetic with NaN gives NaN and a comparison with NaN is false.
\<close>

definition nf_sub :: "npfloat \<Rightarrow> npfloat \<Rightarrow> npfloat" where
  "nf_sub a b = (case a of None \<Rightarrow> None | Some x \<Rightarrow> (case b of None \<Rightarrow> None | Some y \<Rightarrow> Some (x - y)))"

definition nf_add :: "npfloat \<Rightarrow> npfloat \<Rightarrow> npfloat" where
  "nf_add a b = (case a of None \<Rightarrow> None | Some x \<Rightarrow> (case b of None \<Rightarrow> None | Some y \<Rightarrow> Some (x + y)))"

definition nf_less :: "npfloat \<Rightarrow> npfloat \<Rightarrow> bool" where
  "nf_less a b = (case a of None \<Rightarrow> False | Some x \<Rightarrow> (case b of None \<Rightarrow> False | Some y \<Rightarrow> x < y))"

definition c_sigmaclip ::
  "(real list \<Rightarrow> real \<Rightarrow> real list) \<Rightarrow> real list \<Rightarrow> real \<Rightarrow> real \<Rightarrow> npfloat \<times> npfloat" where
  "c_sigmaclip sigma_clip flux rms_noise sigma_clip_threshold =
     (let filtered_data = sigma_clip flux sigma_clip_threshold;
          sigmaclip_flux_prev = np_mean filtered_data;
          sigmaclip_sigma = np_std filtered_data;
          mean_flux = np_mean flux;
          sigmaclip_flux =
            (if nf_less (Some (1 * rms_noise)) (nf_sub mean_flux sigmaclip_flux_prev)
             then nf_sub sigmaclip_flux_prev sigmaclip_sigma
             else if nf_less (nf_sub mean_flux sigmaclip_flux_prev) (Some (- 1 * rms_noise))
             then nf_add sigmaclip_flux_prev sigmaclip_sigma
             else sigmaclip_flux_prev)
      in (sigmaclip_flux, sigmaclip_sigma))"

subsection \<open>Valid input\<close>

text \<open>
  The input the specification calls valid (section 4.1): a non-empty flux array whose
  maximum exceeds its minimum, and a strictly positive noise.
\<close>

definition valid_input :: "real list \<Rightarrow> real \<Rightarrow> bool" where
  "valid_input flux rms_noise \<longleftrightarrow> flux \<noteq> [] \<and> Min (set flux) < Max (set flux) \<and> 0 < rms_noise"

subsection \<open>Closed forms used in the proofs\<close>

text \<open>
  For valid input the histogram has a closed form: bin \<open>i\<close> of \<open>n\<close> has the centre
  \<open>min + (i + 1/2) * w\<close> with \<open>w = (max - min) / n\<close>, and the selected indices are an interval.
  These definitions only state what the functions above are proved to return.
\<close>

definition bin_width_of :: "real list \<Rightarrow> int \<Rightarrow> real" where
  "bin_width_of flux n = (Max (set flux) - Min (set flux)) / real_of_int n"

definition bin_centre :: "real list \<Rightarrow> int \<Rightarrow> nat \<Rightarrow> real" where
  "bin_centre flux n i = Min (set flux) + real i * bin_width_of flux n + bin_width_of flux n / 2"

definition bin_counts :: "real list \<Rightarrow> int \<Rightarrow> nat list" where
  "bin_counts flux n =
     map (\<lambda>i. length (filter (\<lambda>x. bin_of (Min (set flux)) (Max (set flux)) (nat n) x = i) flux))
       [0..<nat n]"

definition bin_edges :: "real list \<Rightarrow> int \<Rightarrow> real list" where
  "bin_edges flux n =
     map (\<lambda>i. Min (set flux) + real i * (Max (set flux) - Min (set flux)) / real (nat n))
       [0..<nat n + 1]"

definition peak_at :: "real list \<Rightarrow> int \<Rightarrow> nat \<Rightarrow> peak" where
  "peak_at flux n m =
     \<lparr>number_bins = n, all_hist = bin_counts flux n, all_bin_edges = bin_edges flux n,
      all_bins = map (bin_centre flux n) [0..<nat n], all_number_max = m,
      bin_width = bin_width_of flux n, all_bins_max = bin_centre flux n m\<rparr>"

definition sel_lo :: "nat \<Rightarrow> nat \<Rightarrow> nat" where
  "sel_lo m a = m - a"

definition sel_hi :: "int \<Rightarrow> nat \<Rightarrow> nat \<Rightarrow> nat" where
  "sel_hi n m b = min (nat n) (m + b + 1)"

text \<open>The exceptions of NumPy and of the interpreter, as opposed to the error kinds of the
  specification.\<close>

definition python_error :: "error \<Rightarrow> bool" where
  "python_error e \<longleftrightarrow> e = ValueError \<or> e = IndexError \<or> e = OverflowError \<or> e = UnboundLocalError"

text \<open>
  The mean and the standard deviation in the words of the specification (section 4.8),
  for comparison with \<open>np_mean\<close> and \<open>np_std\<close>.
\<close>

definition spec_mean :: "real list \<Rightarrow> real" where
  "spec_mean xs = sum_list xs / real (length xs)"

definition spec_std :: "real list \<Rightarrow> real" where
  "spec_std xs = sqrt (spec_mean (map (\<lambda>x. (x - spec_mean xs)\<^sup>2) xs))"

section \<open>Basic facts about the primitives\<close>

lemma err_bind_Inr [simp]: "err_bind (Inr x) f = f x"
  by (simp add: err_bind_def)

lemma err_bind_Inl [simp]: "err_bind (Inl e) f = Inl e"
  by (simp add: err_bind_def)

lemma err_bind_eq_Inr:
  "err_bind m f = Inr y \<longleftrightarrow> (\<exists>x. m = Inr x \<and> f x = Inr y)"
  by (cases m) simp_all

lemma fold_max_eq: "fold max xs (x::'a::linorder) = Max (insert x (set xs))"
  using Max.set_eq_fold [of x xs] by simp

lemma fold_min_eq: "fold min xs (x::'a::linorder) = Min (insert x (set xs))"
  using Min.set_eq_fold [of x xs] by simp

lemma np_amax_eq: "flux \<noteq> [] \<Longrightarrow> np_amax flux = Inr (Max (set flux))"
  by (cases flux) (simp_all add: np_amax_def fold_max_eq)

lemma np_amin_eq: "flux \<noteq> [] \<Longrightarrow> np_amin flux = Inr (Min (set flux))"
  by (cases flux) (simp_all add: np_amin_def fold_min_eq)

lemma arr_max_eq: "xs \<noteq> [] \<Longrightarrow> arr_max xs = Inr (Max (set xs))"
  by (cases xs) (simp_all add: arr_max_def fold_max_eq)

lemma arr_min_eq: "xs \<noteq> [] \<Longrightarrow> arr_min xs = Inr (Min (set xs))"
  by (cases xs) (simp_all add: arr_min_def fold_min_eq)

lemma hist_range_valid:
  "valid_input flux rms_noise \<Longrightarrow> hist_range flux = (Min (set flux), Max (set flux))"
  by (cases flux) (auto simp: valid_input_def hist_range_def Let_def fold_max_eq fold_min_eq)

lemma py_get_nat: "py_get xs (int i) = (if i < length xs then Inr (xs ! i) else Inl IndexError)"
  by (simp add: py_get_def)

lemma py_get_0: "py_get xs 0 = (if xs = [] then Inl IndexError else Inr (xs ! 0))"
  by (simp add: py_get_def)

lemma py_get_1: "py_get xs 1 = (if length xs < 2 then Inl IndexError else Inr (xs ! 1))"
  by (auto simp add: py_get_def)

lemma number_bins_valid:
  "valid_input flux rms_noise \<Longrightarrow>
   number_bins_of flux rms_noise = Inr \<lfloor>(Max (set flux) - Min (set flux)) / (2 * rms_noise)\<rfloor>"
  by (simp add: valid_input_def number_bins_of_def np_amax_eq np_amin_eq py_int_def)

lemma number_bins_nonneg:
  "valid_input flux rms_noise \<Longrightarrow> number_bins_of flux rms_noise = Inr n \<Longrightarrow> 0 \<le> n"
  by (auto simp add: number_bins_valid valid_input_def)

lemma take_edges:
  "take n (map f [0..<n + 1]) = map f [0..<n]"
  by (simp add: take_map)

lemma all_histogram_valid:
  assumes v: "valid_input flux rms_noise" and nb: "number_bins_of flux rms_noise = Inr n" and n2: "2 \<le> n"
  defines "lo \<equiv> Min (set flux)" and "hi \<equiv> Max (set flux)"
  defines "w \<equiv> (hi - lo) / real_of_int n"
  shows "all_histogram flux rms_noise =
           Inr (n, map (\<lambda>i. length (filter (\<lambda>x. bin_of lo hi (nat n) x = i) flux)) [0..<nat n],
                map (\<lambda>i. lo + real i * (hi - lo) / real (nat n)) [0..<nat n + 1],
                map (\<lambda>i. lo + real i * w + w / 2) [0..<nat n])"
proof -
  have hr: "hist_range flux = (lo, hi)"
    using v by (simp add: hist_range_valid lo_def hi_def)
  have n1: "\<not> n < 1" "nat n \<noteq> 0" "\<not> nat n < 2" "1 < nat n" "real (nat n) = real_of_int n"
    using n2 by auto
  have e1: "map (\<lambda>i. lo + real i * (hi - lo) / real (nat n)) [0..<nat n] ! 1 = lo + w"
    using n1 by (simp add: w_def)
  have e0: "map (\<lambda>i. lo + real i * (hi - lo) / real (nat n)) [0..<nat n] ! 0 = lo"
    using n1 by simp
  have m: "map (\<lambda>x. x + w / 2) (map (\<lambda>i. lo + real i * (hi - lo) / real (nat n)) [0..<nat n])
           = map (\<lambda>i. lo + real i * w + w / 2) [0..<nat n]"
    using n1 by (simp add: w_def)
  let ?edges = "map (\<lambda>i. lo + real i * (hi - lo) / real (nat n)) [0..<nat n + 1]"
  let ?left = "map (\<lambda>i. lo + real i * (hi - lo) / real (nat n)) [0..<nat n]"
  let ?hist = "map (\<lambda>i. length (filter (\<lambda>x. bin_of lo hi (nat n) x = i) flux)) [0..<nat n]"
  have h: "np_histogram flux n = Inr (?hist, ?edges)"
    using n1(1) by (simp add: np_histogram_def hr Let_def del: upt_Suc)
  have t: "take (length ?edges - 1) ?edges = ?left"
    by (simp add: take_map del: upt_Suc)
  have ne: "?left \<noteq> []" "\<not> length ?left < 2"
    using n1 by simp_all
  have g1: "py_get ?left 1 = Inr (lo + w)"
    unfolding py_get_1 using ne e1 by simp
  have g0: "py_get ?left 0 = Inr lo"
    unfolding py_get_0 using ne e0 by simp
  have m': "map (\<lambda>x. x + (lo + w - lo) / 2) ?left = map (\<lambda>i. lo + real i * w + w / 2) [0..<nat n]"
    using m by simp
  show ?thesis
    unfolding all_histogram_def nb
    by (simp only: err_bind_Inr h split_conv Let_def t ne if_False g1 g0 m')
qed

lemma np_where_Suc: "np_where P (Suc n) = np_where P n @ (if P n then [n] else [])"
  by (simp add: np_where_def)

lemma np_where_set: "set (np_where P n) = {i. i < n \<and> P i}"
  by (auto simp: np_where_def)

lemma np_where_mem: "i \<in> set (np_where P n) \<longleftrightarrow> i < n \<and> P i"
  by (simp add: np_where_def)

lemma np_where_empty: "np_where P n = [] \<longleftrightarrow> (\<forall>i<n. \<not> P i)"
  by (auto simp add: np_where_def filter_empty_conv)

lemma np_where_first:
  "py_get (np_where P n) 0 = Inr m \<Longrightarrow> m < n \<and> P m \<and> (\<forall>j<m. \<not> P j)"
proof (induction n)
  case 0
  then show ?case by (simp add: np_where_def py_get_0)
next
  case (Suc n)
  show ?case
  proof (cases "np_where P n = []")
    case True
    then have none: "\<forall>j<n. \<not> P j"
      by (simp add: np_where_empty)
    have "np_where P (Suc n) = (if P n then [n] else [])"
      using True by (simp add: np_where_Suc)
    with Suc.prems have "P n" "m = n"
      by (simp_all add: py_get_0 split: if_splits)
    with none show ?thesis by simp
  next
    case False
    then have "np_where P (Suc n) ! 0 = np_where P n ! 0"
      by (simp add: np_where_Suc nth_append)
    with False Suc.prems have "py_get (np_where P n) 0 = Inr m"
      by (simp add: py_get_0 np_where_Suc)
    with Suc.IH have "m < n \<and> P m \<and> (\<forall>j<m. \<not> P j)" by blast
    then show ?thesis by simp
  qed
qed

lemma np_where_first_ex:
  assumes "i < n" "P i"
  shows "\<exists>m. py_get (np_where P n) 0 = Inr m"
proof -
  have "np_where P n \<noteq> []"
    using assms by (auto simp add: np_where_empty)
  then show ?thesis by (simp add: py_get_0)
qed

lemma bin_of_less:
  assumes "lo < hi" "0 < n" "lo \<le> x" "x \<le> hi"
  shows "bin_of lo hi n x < n"
proof (cases "x = hi")
  case True
  with assms show ?thesis by (simp add: bin_of_def)
next
  case False
  with assms have "x < hi" by simp
  then have "(x - lo) * real n / (hi - lo) < real n"
    using assms by (simp add: field_simps)
  moreover have "0 \<le> (x - lo) * real n / (hi - lo)"
    using assms by simp
  ultimately have "nat \<lfloor>(x - lo) * real n / (hi - lo)\<rfloor> < n"
    by (simp add: floor_less_iff nat_less_iff)
  with False show ?thesis by (simp add: bin_of_def)
qed

lemma bin_of_range:
  assumes "lo < hi" "0 < n" "lo \<le> x" "x \<le> hi"
  defines "w \<equiv> (hi - lo) / real n"
  shows "lo + real (bin_of lo hi n x) * w \<le> x \<and> x \<le> lo + (real (bin_of lo hi n x) + 1) * w"
proof (cases "x = hi")
  case True
  have w0: "0 \<le> w" using assms by (simp add: w_def)
  have nw: "real n * w = hi - lo"
    using assms by (simp add: w_def)
  have s: "real (n - 1) + 1 = real n"
    using assms by (simp add: of_nat_diff)
  have "real (n - 1) * w \<le> real n * w"
    using w0 by (intro mult_right_mono) simp_all
  then have "lo + real (n - 1) * w \<le> hi"
    using nw by simp
  moreover have "lo + (real (n - 1) + 1) * w = hi"
    using nw s by simp
  ultimately show ?thesis using True by (simp add: bin_of_def)
next
  case False
  define q where "q = (x - lo) * real n / (hi - lo)"
  have q0: "0 \<le> q" using assms by (simp add: q_def)
  have b: "bin_of lo hi n x = nat \<lfloor>q\<rfloor>"
    using False by (simp add: bin_of_def q_def)
  have fl: "real (nat \<lfloor>q\<rfloor>) \<le> q" "q < real (nat \<lfloor>q\<rfloor>) + 1"
    using q0 by (simp_all add: of_nat_nat)
  have x: "x = lo + q * w"
    using assms by (simp add: q_def w_def)
  have w0: "0 < w" using assms by (simp add: w_def)
  have "lo + real (nat \<lfloor>q\<rfloor>) * w \<le> lo + q * w"
    using fl(1) w0 by simp
  moreover have "lo + q * w \<le> lo + (real (nat \<lfloor>q\<rfloor>) + 1) * w"
    using fl(2) w0 by (simp add: mult_le_cancel_right)
  ultimately show ?thesis using x b by simp
qed

lemma cont_histo_number_bins_error:
  "number_bins_of flux rms_noise = Inl e \<Longrightarrow> cont_histo flux rms_noise = Inl e"
  by (simp add: cont_histo_def cont_histo_window_def cont_histo_bounds_def find_peak_def
      all_histogram_def)

lemma cont_histo_histogram_error:
  "number_bins_of flux rms_noise = Inr n \<Longrightarrow> np_histogram flux n = Inl e \<Longrightarrow>
   cont_histo flux rms_noise = Inl e"
  by (simp add: cont_histo_def cont_histo_window_def cont_histo_bounds_def find_peak_def
      all_histogram_def)

lemma Min_le_Max_list: "flux \<noteq> [] \<Longrightarrow> Min (set flux) \<le> Max (set (flux :: real list))"
  by (simp add: Min_le_iff)

section \<open>The histogram and the window for valid input\<close>

lemma all_histogram_char:
  assumes "valid_input flux rms_noise" and "number_bins_of flux rms_noise = Inr n" and "2 \<le> n"
  shows "all_histogram flux rms_noise =
           Inr (n, bin_counts flux n, bin_edges flux n, map (bin_centre flux n) [0..<nat n])"
proof -
  have "(\<lambda>i. Min (set flux) + real i * ((Max (set flux) - Min (set flux)) / real_of_int n) +
              (Max (set flux) - Min (set flux)) / real_of_int n / 2) = bin_centre flux n"
    by (rule ext) (simp add: bin_centre_def bin_width_of_def)
  then show ?thesis
    using all_histogram_valid [OF assms]
    by (simp only: bin_counts_def bin_edges_def)
qed

lemma bin_width_pos:
  "valid_input flux rms_noise \<Longrightarrow> 0 < n \<Longrightarrow> 0 < bin_width_of flux n"
  by (simp add: valid_input_def bin_width_of_def)

lemma bin_centre_diff:
  "bin_centre flux n i - bin_centre flux n j = (real i - real j) * bin_width_of flux n"
  by (simp add: bin_centre_def algebra_simps)

lemma bin_centre_le_iff:
  assumes "0 < bin_width_of flux n"
  shows "bin_centre flux n i \<le> bin_centre flux n j \<longleftrightarrow> i \<le> j"
proof -
  have "bin_centre flux n i \<le> bin_centre flux n j \<longleftrightarrow>
        real i * bin_width_of flux n \<le> real j * bin_width_of flux n"
    by (simp add: bin_centre_def)
  also have "\<dots> \<longleftrightarrow> real i \<le> real j"
    using assms by (simp add: mult_le_cancel_right)
  finally show ?thesis by simp
qed

lemma bin_centre_eq_iff:
  assumes "0 < bin_width_of flux n"
  shows "bin_centre flux n i = bin_centre flux n j \<longleftrightarrow> i = j"
  using bin_centre_le_iff [OF assms, of i j] bin_centre_le_iff [OF assms, of j i]
  by auto

lemma length_bin_counts: "length (bin_counts flux n) = nat n"
  by (simp add: bin_counts_def)

lemma bin_counts_nth:
  "i < nat n \<Longrightarrow> bin_counts flux n ! i =
     length (filter (\<lambda>x. bin_of (Min (set flux)) (Max (set flux)) (nat n) x = i) flux)"
  by (simp add: bin_counts_def)

lemma flux_in_range:
  "x \<in> set flux \<Longrightarrow> Min (set flux) \<le> x \<and> x \<le> Max (set flux)"
  by simp

lemma bin_counts_pos_ex:
  assumes "valid_input flux rms_noise" and "0 < n"
  shows "\<exists>i<nat n. 0 < bin_counts flux n ! i"
proof -
  from assms(1) obtain x where x: "x \<in> set flux"
    by (cases flux) (auto simp: valid_input_def)
  let ?i = "bin_of (Min (set flux)) (Max (set flux)) (nat n) x"
  have i: "?i < nat n"
    using assms x by (intro bin_of_less) (simp_all add: valid_input_def)
  have "x \<in> set (filter (\<lambda>y. bin_of (Min (set flux)) (Max (set flux)) (nat n) y = ?i) flux)"
    using x by simp
  then have "0 < length (filter (\<lambda>y. bin_of (Min (set flux)) (Max (set flux)) (nat n) y = ?i) flux)"
    by (metis length_pos_if_in_set)
  then show ?thesis using i by (auto simp: bin_counts_nth)
qed

lemma find_peak_valid:
  assumes v: "valid_input flux rms_noise" and nb: "number_bins_of flux rms_noise = Inr n"
    and n2: "2 \<le> n"
  shows "\<exists>m. find_peak flux rms_noise =
              Inr \<lparr>number_bins = n, all_hist = bin_counts flux n, all_bin_edges = bin_edges flux n,
                   all_bins = map (bin_centre flux n) [0..<nat n], all_number_max = m,
                   bin_width = bin_width_of flux n, all_bins_max = bin_centre flux n m\<rparr>
            \<and> m < nat n \<and> 0 < bin_counts flux n ! m
            \<and> (\<forall>i<nat n. bin_counts flux n ! i \<le> bin_counts flux n ! m)
            \<and> (\<forall>i<m. bin_counts flux n ! i \<noteq> bin_counts flux n ! m)"
proof -
  let ?H = "bin_counts flux n"
  let ?E = "bin_edges flux n"
  let ?B = "map (bin_centre flux n) [0..<nat n]"
  have npos: "0 < n" "0 < nat n" "1 < nat n" using n2 by simp_all
  have ah: "all_histogram flux rms_noise = Inr (n, ?H, ?E, ?B)"
    by (rule all_histogram_char [OF v nb n2])
  have Hne: "?H \<noteq> []"
    using npos length_bin_counts [of flux n] by auto
  have am: "arr_max ?H = Inr (Max (set ?H))"
    by (rule arr_max_eq [OF Hne])
  have "Max (set ?H) \<in> set ?H"
    using Hne by (intro Max_in) simp_all
  then obtain i where i: "i < length ?H" "?H ! i = Max (set ?H)"
    by (auto simp: in_set_conv_nth)
  from np_where_first_ex [of i "length ?H" "\<lambda>i. ?H ! i = Max (set ?H)"] i
  obtain m where gm: "py_get (np_where (\<lambda>i. ?H ! i = Max (set ?H)) (length ?H)) 0 = Inr m"
    by blast
  from np_where_first [OF gm]
  have m: "m < length ?H" "?H ! m = Max (set ?H)" "\<forall>j<m. ?H ! j \<noteq> Max (set ?H)"
    by simp_all
  have mn: "m < nat n" using m(1) by (simp add: length_bin_counts)
  have le: "\<forall>i<nat n. ?H ! i \<le> ?H ! m"
  proof (intro allI impI)
    fix i assume "i < nat n"
    then have "?H ! i \<in> set ?H" by (simp add: length_bin_counts)
    then show "?H ! i \<le> ?H ! m" unfolding m(2) by (intro Max_ge) simp_all
  qed
  obtain k where k: "k < nat n" "0 < ?H ! k"
    using bin_counts_pos_ex [OF v npos(1)] by blast
  have pos: "0 < ?H ! m" using le k by (metis less_le_trans)
  have ge: "py_get ?E (int m) =
              Inr (Min (set flux) + real m * (Max (set flux) - Min (set flux)) / real (nat n))"
    using mn by (simp add: py_get_nat bin_edges_def nth_append del: upt_Suc)
  have g1: "py_get ?B 1 = Inr (bin_centre flux n 1)"
    using npos by (simp add: py_get_1)
  have g0: "py_get ?B 0 = Inr (bin_centre flux n 0)"
    using npos by (simp add: py_get_0)
  have w: "bin_centre flux n 1 - bin_centre flux n 0 = bin_width_of flux n"
    by (simp add: bin_centre_diff)
  have c: "Min (set flux) + real m * (Max (set flux) - Min (set flux)) / real (nat n)
             + bin_width_of flux n / 2 = bin_centre flux n m"
    using npos by (simp add: bin_centre_def bin_width_of_def)
  have "find_peak flux rms_noise =
          Inr \<lparr>number_bins = n, all_hist = ?H, all_bin_edges = ?E, all_bins = ?B,
               all_number_max = m, bin_width = bin_width_of flux n,
               all_bins_max = bin_centre flux n m\<rparr>"
    unfolding find_peak_def
    by (simp only: ah err_bind_Inr split_conv am gm ge g1 g0 w c)
  with mn pos le m(2,3) show ?thesis by auto
qed

lemma number_bins_Inr_valid:
  assumes "number_bins_of flux rms_noise = Inr n" and "1 \<le> n"
  shows "valid_input flux rms_noise"
proof -
  have ne: "flux \<noteq> []"
    using assms(1) by (auto simp: number_bins_of_def np_amax_def)
  let ?d = "Max (set flux) - Min (set flux)"
  have r0: "2 * rms_noise \<noteq> 0" and n: "n = py_int (?d / (2 * rms_noise))"
    using assms(1) ne by (auto simp: number_bins_of_def np_amax_eq np_amin_eq split: if_splits)
  have d0: "0 \<le> ?d" using Min_le_Max_list [OF ne] by simp
  have q: "0 < ?d / (2 * rms_noise)"
  proof (rule ccontr)
    assume "\<not> 0 < ?d / (2 * rms_noise)"
    then have "?d / (2 * rms_noise) \<le> 0" by simp
    then have "py_int (?d / (2 * rms_noise)) \<le> 0"
      by (auto simp: py_int_def ceiling_le_iff)
    with n assms(2) show False by simp
  qed
  have "0 < rms_noise \<and> 0 < ?d"
    using q d0 r0 by (auto simp: zero_less_divide_iff)
  with ne show ?thesis by (simp add: valid_input_def)
qed

lemma all_histogram_Inr:
  assumes "all_histogram flux rms_noise = Inr (n, H, E, B)"
  shows "number_bins_of flux rms_noise = Inr n \<and> 1 \<le> n \<and> length B \<le> nat n"
proof -
  from assms obtain n' where n': "number_bins_of flux rms_noise = Inr n'"
    by (cases "number_bins_of flux rms_noise") (simp_all add: all_histogram_def)
  from assms n' obtain H' E' where h: "np_histogram flux n' = Inr (H', E')"
    by (cases "np_histogram flux n'") (auto simp: all_histogram_def)
  have n1: "1 \<le> n'" and E': "length E' = nat n' + 1"
    using h by (auto simp: np_histogram_def Let_def split: if_splits)
  have "n = n' \<and> length B \<le> nat n'"
    using assms n' h E'
    by (auto simp: all_histogram_def Let_def err_bind_eq_Inr split: if_splits)
  with n' n1 show ?thesis by simp
qed

lemma find_peak_Inr_valid:
  assumes "find_peak flux rms_noise = Inr p"
  shows "valid_input flux rms_noise \<and> number_bins_of flux rms_noise = Inr (number_bins p)
         \<and> 2 \<le> number_bins p"
proof -
  from assms obtain n H E B where ah: "all_histogram flux rms_noise = Inr (n, H, E, B)"
    by (cases "all_histogram flux rms_noise") (auto simp: find_peak_def)
  from all_histogram_Inr [OF ah]
  have nb: "number_bins_of flux rms_noise = Inr n" "1 \<le> n" "length B \<le> nat n"
    by simp_all
  have "number_bins p = n \<and> \<not> length B < 2"
    using assms ah by (auto simp: find_peak_def err_bind_eq_Inr py_get_1 split: if_splits)
  with nb number_bins_Inr_valid [OF nb(1,2)] show ?thesis by auto
qed

lemma find_peak_small:
  assumes "valid_input flux rms_noise" and "number_bins_of flux rms_noise = Inr n" and "n < 2"
  shows "find_peak flux rms_noise = Inl (if n = 1 then IndexError else ValueError)"
proof (cases "find_peak flux rms_noise")
  case (Inr p)
  with find_peak_Inr_valid [OF Inr] assms show ?thesis by simp
next
  case (Inl e)
  show ?thesis
  proof (cases "n = 1")
    case True
    have h: "np_histogram flux 1 = Inr ([length (filter (\<lambda>x. bin_of (Min (set flux)) (Max (set flux)) 1 x = 0) flux)],
        [Min (set flux), Max (set flux)])"
      using assms(1) by (simp add: np_histogram_def hist_range_valid Let_def)
    have "all_histogram flux rms_noise = Inl IndexError"
      using assms(2) True h by (simp add: all_histogram_def py_get_1)
    then show ?thesis using True by (simp add: find_peak_def)
  next
    case False
    with assms number_bins_nonneg [OF assms(1,2)] have "n = 0" by simp
    then have "np_histogram flux n = Inl ValueError" by (simp add: np_histogram_def)
    then have "all_histogram flux rms_noise = Inl ValueError"
      using assms(2) by (simp add: all_histogram_def)
    then show ?thesis using False by (simp add: find_peak_def)
  qed
qed

lemma centres_nth: "i < nat n \<Longrightarrow> map (bin_centre flux n) [0..<nat n] ! i = bin_centre flux n i"
  by simp

lemma boundaries_valid:
  assumes v: "valid_input flux rms_noise" and n2: "2 \<le> n"
    and m: "m < nat n" and pos: "0 < bin_counts flux n ! m"
  defines "p \<equiv> \<lparr>number_bins = n, all_hist = bin_counts flux n, all_bin_edges = bin_edges flux n,
                   all_bins = map (bin_centre flux n) [0..<nat n], all_number_max = m,
                   bin_width = bin_width_of flux n, all_bins_max = bin_centre flux n m\<rparr>"
  shows "\<exists>l r. all_number_left p = Inr l \<and> all_number_right p = Inr r
               \<and> l \<le> m \<and> m \<le> r \<and> r < nat n \<and> l < r"
proof -
  have w: "0 < bin_width_of flux n"
    using v n2 by (intro bin_width_pos) simp_all
  have npos: "0 < nat n" "1 < nat n" "nat n - 1 < nat n" using n2 by simp_all
  define B where "B = map (bin_centre flux n) [0..<nat n]"
  define H where "H = bin_counts flux n"
  define PL where "PL = (\<lambda>i. (H ! i = 0 \<and> B ! i \<le> bin_centre flux n m) \<or> B ! i = bin_centre flux n 0)"
  define PR where "PR = (\<lambda>i. (H ! i = 0 \<and> B ! i \<ge> bin_centre flux n m) \<or> B ! i = bin_centre flux n (nat n - 1))"
  define L where "L = np_where PL (nat n)"
  define R where "R = np_where PR (nat n)"
  have Bn: "B ! i = bin_centre flux n i" if "i < nat n" for i
    unfolding B_def using that by (rule centres_nth)
  have lenB: "length B = nat n" by (simp add: B_def)
  have Bne: "B \<noteq> []" using lenB npos by auto
  have g0: "py_get B 0 = Inr (bin_centre flux n 0)"
    using npos Bne Bn [of 0] by (simp add: py_get_0)
  have e: "n - 1 = int (nat n - 1)" using n2 by simp
  have "py_get B (int (nat n - 1)) = Inr (bin_centre flux n (nat n - 1))"
    unfolding py_get_nat lenB using npos(3) Bn [OF npos(3)] by (simp only: if_True)
  then have gl: "py_get B (n - 1) = Inr (bin_centre flux n (nat n - 1))"
    by (subst e)
  have "PL 0" using Bn [of 0] npos by (simp add: PL_def)
  then have L0: "0 \<in> set L"
    using npos by (simp add: L_def np_where_mem)
  have "PR (nat n - 1)" using Bn [of "nat n - 1"] npos by (simp add: PR_def)
  then have Rn: "nat n - 1 \<in> set R"
    using npos by (simp add: R_def np_where_mem)
  have Lne: "L \<noteq> []" and Rne: "R \<noteq> []"
    using L0 Rn by auto
  have left: "all_number_left p = Inr (Max (set L))"
    unfolding all_number_left_def p_def peak.simps B_def [symmetric] H_def [symmetric]
    by (simp only: g0 err_bind_Inr lenB PL_def [symmetric] L_def [symmetric] arr_max_eq [OF Lne])
  have right: "all_number_right p = Inr (Min (set R))"
    unfolding all_number_right_def p_def peak.simps B_def [symmetric] H_def [symmetric]
    by (simp only: gl err_bind_Inr lenB PR_def [symmetric] R_def [symmetric] arr_min_eq [OF Rne])
  define l where "l = Max (set L)"
  define r where "r = Min (set R)"
  have Lm: "l \<in> set L" unfolding l_def using Lne by (intro Max_in) simp_all
  have Rm: "r \<in> set R" unfolding r_def using Rne by (intro Min_in) simp_all
  have Hm: "H ! m \<noteq> 0" using pos by (simp add: H_def)
  have Lprop: "l \<le> m \<and> (l = m \<longrightarrow> m = 0)"
  proof -
    from Lm have i: "l < nat n" and P: "PL l" by (simp_all add: L_def np_where_mem)
    from P have "(H ! l = 0 \<and> l \<le> m) \<or> l = 0"
      unfolding PL_def Bn [OF i] by (simp add: bin_centre_le_iff [OF w] bin_centre_eq_iff [OF w])
    with Hm show ?thesis by auto
  qed
  have Rprop: "m \<le> r \<and> r < nat n \<and> (r = m \<longrightarrow> m = nat n - 1)"
  proof -
    from Rm have i: "r < nat n" and P: "PR r" by (simp_all add: R_def np_where_mem)
    from P have "(H ! r = 0 \<and> m \<le> r) \<or> r = nat n - 1"
      unfolding PR_def Bn [OF i] by (simp add: bin_centre_le_iff [OF w] bin_centre_eq_iff [OF w])
    with Hm i m show ?thesis by auto
  qed
  from Lprop Rprop npos
  have "l \<le> m \<and> m \<le> r \<and> r < nat n \<and> l < r"
    by linarith
  with left right show ?thesis unfolding l_def r_def by blast
qed

lemma ratio_of_range:
  assumes "l \<le> m" "m \<le> r" "l < r"
  shows "\<exists>\<rho>. ratio_of l r m = Some \<rho> \<and> 0 \<le> \<rho> \<and> \<rho> \<le> 1"
proof -
  define a where "a = \<bar>int r - int m\<bar>"
  define b where "b = \<bar>int l - int m\<bar>"
  have ab: "0 \<le> a" "0 \<le> b" "a + b \<noteq> 0"
    using assms by (simp_all add: a_def b_def)
  have r: "ratio_of l r m = Some (real_of_int a / real_of_int (a + b))"
    using ab(3) unfolding ratio_of_def a_def [symmetric] b_def [symmetric] by (simp add: Let_def)
  have "0 \<le> real_of_int a / real_of_int (a + b)"
    using ab by simp
  moreover have "real_of_int a / real_of_int (a + b) \<le> 1"
    using ab by (simp add: divide_le_eq)
  ultimately show ?thesis using r by blast
qed

lemma window_bounds_Some:
  "window_bounds (Some \<rho>) c w =
     Some (if 33 / 100 < \<rho> \<and> \<rho> < 66 / 100 then (c - 5 * w, c + 5 * w)
           else if \<rho> \<le> 33 / 100 then (c - 4 * w, c + 8 * w)
           else (c - 8 * w, c + 4 * w))"
  by (simp add: window_bounds_def Let_def)

lemma window_bounds_nat:
  "\<exists>a b. 4 \<le> a \<and> 4 \<le> b \<and>
         window_bounds (Some \<rho>) c w = Some (c - real a * w, c + real b * w)"
proof -
  consider "33 / 100 < \<rho> \<and> \<rho> < 66 / 100" | "\<rho> \<le> 33 / 100" | "66 / 100 \<le> \<rho>"
    by linarith
  then show ?thesis
  proof cases
    case 1
    then have "window_bounds (Some \<rho>) c w = Some (c - real 5 * w, c + real 5 * w)"
      by (simp add: window_bounds_Some)
    then show ?thesis by (intro exI [of _ 5] conjI) simp_all
  next
    case 2
    then have "window_bounds (Some \<rho>) c w = Some (c - real 4 * w, c + real 8 * w)"
      by (simp add: window_bounds_Some)
    then show ?thesis by (intro exI [of _ 4] exI [of _ 8] conjI) simp_all
  next
    case 3
    then have "window_bounds (Some \<rho>) c w = Some (c - real 8 * w, c + real 4 * w)"
      by (simp add: window_bounds_Some)
    then show ?thesis by (intro exI [of _ 8] exI [of _ 4] conjI) simp_all
  qed
qed

lemma find_peak_at:
  assumes "valid_input flux rms_noise" and "number_bins_of flux rms_noise = Inr n" and "2 \<le> n"
  shows "\<exists>m. find_peak flux rms_noise = Inr (peak_at flux n m)
            \<and> m < nat n \<and> 0 < bin_counts flux n ! m
            \<and> (\<forall>i<nat n. bin_counts flux n ! i \<le> bin_counts flux n ! m)
            \<and> (\<forall>i<m. bin_counts flux n ! i \<noteq> bin_counts flux n ! m)"
  using find_peak_valid [OF assms] unfolding peak_at_def .

lemma cont_histo_bounds_valid:
  assumes v: "valid_input flux rms_noise" and nb: "number_bins_of flux rms_noise = Inr n"
    and n2: "2 \<le> n"
  shows "\<exists>m \<rho>. cont_histo_bounds flux rms_noise =
                  Inr (peak_at flux n m, Some \<rho>,
                       window_bounds (Some \<rho>) (bin_centre flux n m) (bin_width_of flux n))
            \<and> find_peak flux rms_noise = Inr (peak_at flux n m)
            \<and> 0 \<le> \<rho> \<and> \<rho> \<le> 1
            \<and> m < nat n \<and> 0 < bin_counts flux n ! m
            \<and> (\<forall>i<nat n. bin_counts flux n ! i \<le> bin_counts flux n ! m)
            \<and> (\<forall>i<m. bin_counts flux n ! i \<noteq> bin_counts flux n ! m)"
proof -
  from find_peak_at [OF assms] obtain m where
    fp: "find_peak flux rms_noise = Inr (peak_at flux n m)" and
    m: "m < nat n" "0 < bin_counts flux n ! m"
      "\<forall>i<nat n. bin_counts flux n ! i \<le> bin_counts flux n ! m"
      "\<forall>i<m. bin_counts flux n ! i \<noteq> bin_counts flux n ! m"
    by blast
  from boundaries_valid [OF v n2 m(1,2)] obtain l r where
    lr: "all_number_left (peak_at flux n m) = Inr l" "all_number_right (peak_at flux n m) = Inr r"
      "l \<le> m" "m \<le> r" "l < r"
    unfolding peak_at_def by blast
  from ratio_of_range [OF lr(3,4,5)] obtain \<rho> where
    \<rho>: "ratio_of l r m = Some \<rho>" "0 \<le> \<rho>" "\<rho> \<le> 1"
    by blast
  have sel: "all_number_max (peak_at flux n m) = m"
    "all_bins_max (peak_at flux n m) = bin_centre flux n m"
    "bin_width (peak_at flux n m) = bin_width_of flux n"
    by (simp_all add: peak_at_def)
  have "cont_histo_bounds flux rms_noise =
          Inr (peak_at flux n m, Some \<rho>,
               window_bounds (Some \<rho>) (bin_centre flux n m) (bin_width_of flux n))"
    unfolding cont_histo_bounds_def
    by (simp only: fp err_bind_Inr lr(1,2) sel \<rho>(1) Let_def)
  with fp \<rho>(2,3) m show ?thesis by blast
qed

lemma cont_histo_bounds_Inr:
  assumes "cont_histo_bounds flux rms_noise = Inr (p, ratio, bounds)"
  shows "find_peak flux rms_noise = Inr p"
  using assms unfolding cont_histo_bounds_def
  by (auto simp: err_bind_eq_Inr Let_def)

lemma filter_interval: "filter (\<lambda>i. A \<le> i \<and> i < B) [0..<n] = [A..<min n B]"
proof (induction n)
  case 0
  show ?case by simp
next
  case (Suc n)
  show ?case
  proof (cases "A \<le> n \<and> n < B")
    case True
    then have "[A..<min (Suc n) B] = [A..<min n B] @ [n]"
      by (simp add: min_def)
    with Suc True show ?thesis by simp
  next
    case False
    then consider "n < A" | "B \<le> n" by linarith
    then have "[A..<min (Suc n) B] = [A..<min n B]"
    proof cases
      case 1
      then show ?thesis by simp
    next
      case 2
      then have "min (Suc n) B = min n B" by simp
      then show ?thesis by simp
    qed
    with Suc False show ?thesis by simp
  qed
qed

lemma selected_indices:
  assumes w: "0 < bin_width_of flux n" and m: "m < nat n"
  shows "np_where (\<lambda>i. map (bin_centre flux n) [0..<nat n] ! i
                          \<ge> bin_centre flux n m - real a * bin_width_of flux n
                      \<and> map (bin_centre flux n) [0..<nat n] ! i
                          \<le> bin_centre flux n m + real b * bin_width_of flux n)
           (length (map (bin_centre flux n) [0..<nat n]))
         = [m - a..<min (nat n) (m + b + 1)]"
proof -
  let ?w = "bin_width_of flux n"
  have lo: "bin_centre flux n m - real a * ?w \<le> bin_centre flux n i \<longleftrightarrow> m - a \<le> i" for i
  proof -
    have "bin_centre flux n m - real a * ?w \<le> bin_centre flux n i
          \<longleftrightarrow> (real m - real a) * ?w \<le> real i * ?w"
      by (simp add: bin_centre_def algebra_simps)
    also have "\<dots> \<longleftrightarrow> real m - real a \<le> real i"
      using w by (simp only: mult_le_cancel_right) simp
    also have "\<dots> \<longleftrightarrow> m - a \<le> i" by linarith
    finally show ?thesis .
  qed
  have hi: "bin_centre flux n i \<le> bin_centre flux n m + real b * ?w \<longleftrightarrow> i < m + b + 1" for i
  proof -
    have "bin_centre flux n i \<le> bin_centre flux n m + real b * ?w
          \<longleftrightarrow> real i * ?w \<le> (real m + real b) * ?w"
      by (simp add: bin_centre_def algebra_simps)
    also have "\<dots> \<longleftrightarrow> real i \<le> real m + real b"
      using w by (simp only: mult_le_cancel_right) simp
    also have "\<dots> \<longleftrightarrow> i < m + b + 1" by linarith
    finally show ?thesis .
  qed
  have "filter (\<lambda>i. map (bin_centre flux n) [0..<nat n] ! i \<ge> bin_centre flux n m - real a * ?w
                   \<and> map (bin_centre flux n) [0..<nat n] ! i \<le> bin_centre flux n m + real b * ?w)
          [0..<nat n]
        = filter (\<lambda>i. m - a \<le> i \<and> i < m + b + 1) [0..<nat n]"
    by (rule filter_cong) (simp_all add: lo hi)
  then show ?thesis
    by (simp only: np_where_def length_map length_upt diff_zero filter_interval)
qed

lemma py_get_error: "py_get xs i = Inl e \<Longrightarrow> e = IndexError"
  by (auto simp: py_get_def split: if_splits)

lemma fallback_window_error:
  assumes "fallback_window bins sel = Inl e"
  shows "e = IndexError"
proof (cases "py_get sel 0")
  case (Inl e')
  with assms have "e = e'" by (simp add: fallback_window_def)
  with Inl show ?thesis by (simp add: py_get_error)
next
  case (Inr s0)
  have i0: "py_get [s0 - 2, s0 - 1, s0, s0 + 1, s0 + 2] 0 = Inr (s0 - 2)"
    by (simp add: py_get_0)
  have i4: "py_get [s0 - 2, s0 - 1, s0, s0 + 1, s0 + 2]
              (int (length [s0 - 2, s0 - 1, s0, s0 + 1, s0 + 2]) - 1) = Inr (s0 + 2)"
    by (simp add: py_get_def)
  show ?thesis
  proof (cases "py_get bins (s0 - 2)")
    case (Inl e')
    with assms Inr i0 have "e = e'" by (simp add: fallback_window_def Let_def)
    with Inl show ?thesis by (simp add: py_get_error)
  next
    case lo: (Inr lo)
    show ?thesis
    proof (cases "py_get bins (s0 + 2)")
      case (Inl e')
      with assms Inr i0 i4 lo have "e = e'" by (simp add: fallback_window_def Let_def)
      with Inl show ?thesis by (simp add: py_get_error)
    next
      case hi: (Inr hi)
      with assms Inr i0 i4 lo show ?thesis by (simp add: fallback_window_def Let_def)
    qed
  qed
qed

lemma fallback_window_past_end:
  assumes "py_get sel 0 = Inr s0" and "int (length bins) \<le> s0 + 2"
  shows "fallback_window bins sel = Inl IndexError"
proof -
  have i0: "py_get [s0 - 2, s0 - 1, s0, s0 + 1, s0 + 2] 0 = Inr (s0 - 2)"
    by (simp add: py_get_0)
  have i4: "py_get [s0 - 2, s0 - 1, s0, s0 + 1, s0 + 2]
              (int (length [s0 - 2, s0 - 1, s0, s0 + 1, s0 + 2]) - 1) = Inr (s0 + 2)"
    by (simp add: py_get_def)
  have hi: "py_get bins (s0 + 2) = Inl IndexError"
    using assms(2) by (simp add: py_get_def)
  show ?thesis
  proof (cases "py_get bins (s0 - 2)")
    case (Inl e')
    then have "e' = IndexError" by (rule py_get_error)
    with Inl assms(1) i0 show ?thesis by (simp add: fallback_window_def Let_def)
  next
    case (Inr lo)
    with assms(1) i0 i4 hi show ?thesis by (simp add: fallback_window_def Let_def)
  qed
qed

lemma select_window_at:
  fixes a b :: nat
  assumes w: "0 < bin_width_of flux n" and m: "m < nat n"
  defines "c \<equiv> bin_centre flux n m" and "bw \<equiv> bin_width_of flux n"
  defines "sel \<equiv> map int [m - a..<min (nat n) (m + b + 1)]"
  shows "select_window (peak_at flux n m) (Some (c - real a * bw, c + real b * bw)) =
           (if length sel < 3 then fallback_window (map (bin_centre flux n) [0..<nat n]) sel
            else Inr \<lparr>lower_all_bins = c - real a * bw, upper_all_bins = c + real b * bw,
                      sel_bins_array = sel\<rparr>)"
proof -
  have ab: "all_bins (peak_at flux n m) = map (bin_centre flux n) [0..<nat n]"
    by (simp add: peak_at_def)
  show ?thesis
    unfolding select_window_def option.case prod.case ab c_def bw_def
      selected_indices [OF w m] Let_def sel_def
    by (rule refl)
qed

lemma interval_length:
  assumes "m < N" "3 \<le> N" "4 \<le> a" "4 \<le> b"
  shows "3 \<le> length [m - a..<min N (m + b + 1)]" "m - a \<le> m" "m < min N (m + b + 1)"
  using assms by (simp_all add: min_def) linarith+

lemma py_get_first_upt: "A < Bd \<Longrightarrow> py_get (map int [A..<Bd]) 0 = Inr (int A)"
  by (simp add: py_get_0)

lemma py_get_last_upt:
  assumes "A < Bd"
  shows "py_get (map int [A..<Bd]) (int (length (map int [A..<Bd])) - 1) = Inr (int (Bd - 1))"
proof -
  have e: "int (length (map int [A..<Bd])) - 1 = int (Bd - A - 1)"
    using assms by (simp add: of_nat_diff)
  have "py_get (map int [A..<Bd]) (int (Bd - A - 1)) = Inr (int (Bd - 1))"
    unfolding py_get_nat using assms by simp
  then show ?thesis by (subst e)
qed

lemma py_slice_nat:
  assumes "A < Bd" "Bd \<le> length xs"
  shows "py_slice xs (int A) (int (Bd - 1) + 1) = take (Bd - A) (drop A xs)"
proof -
  have e: "int (Bd - 1) + 1 = int Bd" using assms by (simp add: of_nat_diff)
  have "py_slice xs (int A) (int Bd) = take (Bd - A) (drop A xs)"
    using assms by (simp add: py_slice_def py_slice_bound_def Let_def)
  then show ?thesis by (subst e)
qed

lemma cont_histo_large:
  assumes v: "valid_input flux rms_noise" and nb: "number_bins_of flux rms_noise = Inr n"
    and n3: "3 \<le> n"
  shows "\<exists>m \<rho> a b.
           cont_histo_bounds flux rms_noise =
             Inr (peak_at flux n m, Some \<rho>,
                  Some (bin_centre flux n m - real a * bin_width_of flux n,
                        bin_centre flux n m + real b * bin_width_of flux n))
         \<and> window_bounds (Some \<rho>) (bin_centre flux n m) (bin_width_of flux n) =
             Some (bin_centre flux n m - real a * bin_width_of flux n,
                   bin_centre flux n m + real b * bin_width_of flux n)
         \<and> cont_histo_window flux rms_noise =
             Inr (peak_at flux n m, Some \<rho>,
                  \<lparr>lower_all_bins = bin_centre flux n m - real a * bin_width_of flux n,
                   upper_all_bins = bin_centre flux n m + real b * bin_width_of flux n,
                   sel_bins_array = map int [sel_lo m a..<sel_hi n m b]\<rparr>)
         \<and> cont_histo flux rms_noise =
             Inr (map (bin_centre flux n) [0..<nat n], bin_counts flux n,
                  take (sel_hi n m b - sel_lo m a) (drop (sel_lo m a) (map (bin_centre flux n) [0..<nat n])),
                  take (sel_hi n m b - sel_lo m a) (drop (sel_lo m a) (bin_counts flux n)),
                  filter (\<lambda>x. x \<ge> bin_centre flux n m - real a * bin_width_of flux n
                              \<and> x \<le> bin_centre flux n m + real b * bin_width_of flux n) flux)
         \<and> 0 \<le> \<rho> \<and> \<rho> \<le> 1 \<and> 4 \<le> a \<and> 4 \<le> b
         \<and> m < nat n \<and> 0 < bin_counts flux n ! m
         \<and> (\<forall>i<nat n. bin_counts flux n ! i \<le> bin_counts flux n ! m)
         \<and> (\<forall>i<m. bin_counts flux n ! i \<noteq> bin_counts flux n ! m)"
proof -
  have n2: "2 \<le> n" using n3 by simp
  let ?w = "bin_width_of flux n"
  let ?B = "map (bin_centre flux n) [0..<nat n]"
  let ?H = "bin_counts flux n"
  have w: "0 < ?w" using v n3 by (intro bin_width_pos) simp_all
  from cont_histo_bounds_valid [OF v nb n2] obtain m \<rho> where
    cb: "cont_histo_bounds flux rms_noise =
           Inr (peak_at flux n m, Some \<rho>, window_bounds (Some \<rho>) (bin_centre flux n m) ?w)"
    and \<rho>: "0 \<le> \<rho>" "\<rho> \<le> 1"
    and m: "m < nat n" "0 < ?H ! m" "\<forall>i<nat n. ?H ! i \<le> ?H ! m" "\<forall>i<m. ?H ! i \<noteq> ?H ! m"
    by blast
  let ?c = "bin_centre flux n m"
  from window_bounds_nat [of \<rho> ?c ?w] obtain a b where
    ab: "4 \<le> a" "4 \<le> b" and wb: "window_bounds (Some \<rho>) ?c ?w = Some (?c - real a * ?w, ?c + real b * ?w)"
    by blast
  let ?lo = "?c - real a * ?w"
  let ?hi = "?c + real b * ?w"
  have n3': "3 \<le> nat n" using n3 by simp
  have len: "3 \<le> length [m - a..<min (nat n) (m + b + 1)]"
    by (rule interval_length(1) [OF m(1) n3' ab])
  have lt: "m - a < min (nat n) (m + b + 1)"
    using interval_length(2,3) [OF m(1) n3' ab] by (rule le_less_trans)
  have len': "\<not> length (map int [m - a..<min (nat n) (m + b + 1)]) < 3"
    using len by simp
  have sw: "select_window (peak_at flux n m) (Some (?lo, ?hi)) =
              Inr \<lparr>lower_all_bins = ?lo, upper_all_bins = ?hi,
                   sel_bins_array = map int [m - a..<min (nat n) (m + b + 1)]\<rparr>"
    unfolding select_window_at [OF w m(1)] using len' by (simp only: if_False)
  have cw: "cont_histo_window flux rms_noise =
              Inr (peak_at flux n m, Some \<rho>,
                   \<lparr>lower_all_bins = ?lo, upper_all_bins = ?hi,
                    sel_bins_array = map int [m - a..<min (nat n) (m + b + 1)]\<rparr>)"
    unfolding cont_histo_window_def
    by (simp only: cb wb err_bind_Inr prod.case sw)
  have pa: "all_bins (peak_at flux n m) = ?B" "all_hist (peak_at flux n m) = ?H"
    by (simp_all add: peak_at_def)
  have hiB: "min (nat n) (m + b + 1) \<le> length ?B" "min (nat n) (m + b + 1) \<le> length ?H"
    by (simp_all add: length_bin_counts)
  have ch: "cont_histo flux rms_noise =
              Inr (?B, ?H,
                   take (min (nat n) (m + b + 1) - (m - a)) (drop (m - a) ?B),
                   take (min (nat n) (m + b + 1) - (m - a)) (drop (m - a) ?H),
                   filter (\<lambda>x. x \<ge> ?lo \<and> x \<le> ?hi) flux)"
    unfolding cont_histo_def
    by (simp only: cw err_bind_Inr prod.case window.simps py_get_first_upt [OF lt]
        py_get_last_upt [OF lt] pa py_slice_nat [OF lt hiB(1)] py_slice_nat [OF lt hiB(2)])
  have cb': "cont_histo_bounds flux rms_noise = Inr (peak_at flux n m, Some \<rho>, Some (?lo, ?hi))"
    using cb by (simp only: wb)
  show ?thesis
    unfolding sel_lo_def sel_hi_def
    by (intro exI [of _ m] exI [of _ \<rho>] exI [of _ a] exI [of _ b] conjI cb' wb cw ch \<rho> ab m)
qed

lemma cont_histo_two:
  assumes v: "valid_input flux rms_noise" and nb: "number_bins_of flux rms_noise = Inr 2"
  shows "\<exists>m \<rho> lo hi.
           cont_histo_bounds flux rms_noise = Inr (peak_at flux 2 m, Some \<rho>, Some (lo, hi))
         \<and> np_where (\<lambda>i. all_bins (peak_at flux 2 m) ! i \<ge> lo \<and> all_bins (peak_at flux 2 m) ! i \<le> hi)
               (length (all_bins (peak_at flux 2 m))) = [0, 1]
         \<and> select_window (peak_at flux 2 m) (Some (lo, hi)) =
               fallback_window (all_bins (peak_at flux 2 m)) [0, 1]
         \<and> fallback_window (all_bins (peak_at flux 2 m)) [0, 1] = Inl IndexError
         \<and> cont_histo_window flux rms_noise = Inl IndexError
         \<and> cont_histo flux rms_noise = Inl IndexError"
proof -
  let ?w = "bin_width_of flux 2"
  let ?B = "map (bin_centre flux 2) [0..<nat 2]"
  have w: "0 < ?w" using v by (intro bin_width_pos) simp_all
  from cont_histo_bounds_valid [OF v nb] obtain m \<rho> where
    cb: "cont_histo_bounds flux rms_noise =
           Inr (peak_at flux 2 m, Some \<rho>, window_bounds (Some \<rho>) (bin_centre flux 2 m) ?w)"
    and m: "m < nat 2"
    by auto
  let ?c = "bin_centre flux 2 m"
  from window_bounds_nat [of \<rho> ?c ?w] obtain a b where
    ab: "4 \<le> a" "4 \<le> b" and wb: "window_bounds (Some \<rho>) ?c ?w = Some (?c - real a * ?w, ?c + real b * ?w)"
    by blast
  let ?lo = "?c - real a * ?w"
  let ?hi = "?c + real b * ?w"
  have pa: "all_bins (peak_at flux 2 k) = ?B" for k
    by (simp add: peak_at_def)
  have iv: "[m - a..<min (nat 2) (m + b + 1)] = [0, 1]"
  proof -
    have e: "m - a = 0" "min (nat 2) (m + b + 1) = 2" using m ab by simp_all
    have "[0..<2] = [0, 1::nat]" by code_simp
    then show ?thesis unfolding e .
  qed
  have wh: "np_where (\<lambda>i. ?B ! i \<ge> ?lo \<and> ?B ! i \<le> ?hi) (length ?B) = [0, 1]"
    unfolding selected_indices [OF w m] by (rule iv)
  have sw: "select_window (peak_at flux 2 m) (Some (?lo, ?hi)) = fallback_window ?B [0, 1]"
    unfolding select_window_at [OF w m] iv by simp
  have fb: "fallback_window ?B [0, 1] = Inl IndexError"
    by (rule fallback_window_past_end [of _ 0]) (simp_all add: py_get_0)
  have cw: "cont_histo_window flux rms_noise = Inl IndexError"
    unfolding cont_histo_window_def
    by (simp only: cb wb err_bind_Inr prod.case sw fb err_bind_Inl)
  have ch: "cont_histo flux rms_noise = Inl IndexError"
    unfolding cont_histo_def by (simp only: cw err_bind_Inl)
  have cb': "cont_histo_bounds flux rms_noise = Inr (peak_at flux 2 m, Some \<rho>, Some (?lo, ?hi))"
    using cb by (simp only: wb)
  have "cont_histo_bounds flux rms_noise = Inr (peak_at flux 2 m, Some \<rho>, Some (?lo, ?hi))
      \<and> np_where (\<lambda>i. ?B ! i \<ge> ?lo \<and> ?B ! i \<le> ?hi) (length ?B) = [0, 1]
      \<and> select_window (peak_at flux 2 m) (Some (?lo, ?hi)) = fallback_window ?B [0, 1]
      \<and> fallback_window ?B [0, 1] = Inl IndexError
      \<and> cont_histo_window flux rms_noise = Inl IndexError
      \<and> cont_histo flux rms_noise = Inl IndexError"
    by (intro conjI cb' wh sw fb cw ch)
  then show ?thesis
    unfolding pa by blast
qed

lemma cont_histo_window_Inr:
  assumes "cont_histo_window flux rms_noise = Inr (p, ratio, w)"
  shows "valid_input flux rms_noise \<and> number_bins_of flux rms_noise = Inr (number_bins p)
         \<and> 3 \<le> number_bins p"
proof -
  from assms obtain bounds where cb: "cont_histo_bounds flux rms_noise = Inr (p, ratio, bounds)"
    unfolding cont_histo_window_def by (auto simp: err_bind_eq_Inr)
  from find_peak_Inr_valid [OF cont_histo_bounds_Inr [OF cb]]
  have v: "valid_input flux rms_noise" and nb: "number_bins_of flux rms_noise = Inr (number_bins p)"
    and n2: "2 \<le> number_bins p"
    by simp_all
  have "number_bins p \<noteq> 2"
  proof
    assume "number_bins p = 2"
    with nb have "number_bins_of flux rms_noise = Inr 2" by simp
    from cont_histo_two [OF v this] assms show False by auto
  qed
  with v nb n2 show ?thesis by simp
qed

lemma cont_histo_Inr:
  assumes "cont_histo flux rms_noise = Inr h"
  shows "\<exists>p ratio w. cont_histo_window flux rms_noise = Inr (p, ratio, w)"
  using assms unfolding cont_histo_def
  by (cases "cont_histo_window flux rms_noise") auto

lemma take_drop_nth: "hi \<le> length xs \<Longrightarrow> take (hi - lo) (drop lo xs) = map (\<lambda>i. xs ! i) [lo..<hi]"
proof -
  assume h: "hi \<le> length xs"
  have "take (hi - lo) (drop lo xs) = take (hi - lo) (drop lo (map (\<lambda>i. xs ! i) [0..<length xs]))"
    by (simp add: map_nth)
  also have "\<dots> = map (\<lambda>i. xs ! i) (take (hi - lo) (drop lo [0..<length xs]))"
    by (simp only: take_map drop_map)
  also have "take (hi - lo) (drop lo [0..<length xs]) = [lo..<hi]"
  proof (cases "lo \<le> hi")
    case True
    then have "lo + (hi - lo) \<le> length xs" using h by simp
    then have "take (hi - lo) [lo..<length xs] = [lo..<lo + (hi - lo)]" by (rule take_upt)
    with True show ?thesis by (simp add: drop_upt)
  next
    case False
    then show ?thesis by simp
  qed
  finally show ?thesis .
qed

lemma peak_at_simps [simp]:
  "number_bins (peak_at flux n m) = n"
  "all_hist (peak_at flux n m) = bin_counts flux n"
  "all_bins (peak_at flux n m) = map (bin_centre flux n) [0..<nat n]"
  "all_number_max (peak_at flux n m) = m"
  "bin_width (peak_at flux n m) = bin_width_of flux n"
  "all_bins_max (peak_at flux n m) = bin_centre flux n m"
  by (simp_all add: peak_at_def)

lemma cont_histo_bounds_char:
  assumes v: "valid_input flux rms_noise"
    and cb: "cont_histo_bounds flux rms_noise = Inr (p, ratio, bounds)"
  shows "\<exists>n m \<rho>. number_bins_of flux rms_noise = Inr n \<and> 2 \<le> n \<and> p = peak_at flux n m
           \<and> ratio = Some \<rho> \<and> 0 \<le> \<rho> \<and> \<rho> \<le> 1
           \<and> bounds = window_bounds (Some \<rho>) (bin_centre flux n m) (bin_width_of flux n)
           \<and> m < nat n \<and> 0 < bin_counts flux n ! m
           \<and> (\<forall>i<nat n. bin_counts flux n ! i \<le> bin_counts flux n ! m)
           \<and> (\<forall>i<m. bin_counts flux n ! i \<noteq> bin_counts flux n ! m)"
proof -
  from find_peak_Inr_valid [OF cont_histo_bounds_Inr [OF cb]]
  have nb: "number_bins_of flux rms_noise = Inr (number_bins p)" and n2: "2 \<le> number_bins p"
    by simp_all
  from cont_histo_bounds_valid [OF v nb n2] obtain m \<rho> where
    e: "cont_histo_bounds flux rms_noise =
          Inr (peak_at flux (number_bins p) m, Some \<rho>,
               window_bounds (Some \<rho>) (bin_centre flux (number_bins p) m)
                 (bin_width_of flux (number_bins p)))"
    and r: "0 \<le> \<rho>" "\<rho> \<le> 1"
    and m: "m < nat (number_bins p)" "0 < bin_counts flux (number_bins p) ! m"
      "\<forall>i<nat (number_bins p). bin_counts flux (number_bins p) ! i \<le> bin_counts flux (number_bins p) ! m"
      "\<forall>i<m. bin_counts flux (number_bins p) ! i \<noteq> bin_counts flux (number_bins p) ! m"
    by blast
  from e cb have eq: "p = peak_at flux (number_bins p) m" "ratio = Some \<rho>"
    "bounds = window_bounds (Some \<rho>) (bin_centre flux (number_bins p) m)
                 (bin_width_of flux (number_bins p))"
    by simp_all
  show ?thesis
    by (intro exI [of _ "number_bins p"] exI [of _ m] exI [of _ \<rho>] conjI nb n2 eq r m)
qed

lemma cont_histo_char:
  assumes "cont_histo flux rms_noise = Inr h"
  shows "\<exists>n m \<rho> a b.
           valid_input flux rms_noise \<and> number_bins_of flux rms_noise = Inr n \<and> 3 \<le> n
         \<and> cont_histo_bounds flux rms_noise =
             Inr (peak_at flux n m, Some \<rho>,
                  Some (bin_centre flux n m - real a * bin_width_of flux n,
                        bin_centre flux n m + real b * bin_width_of flux n))
         \<and> cont_histo_window flux rms_noise =
             Inr (peak_at flux n m, Some \<rho>,
                  \<lparr>lower_all_bins = bin_centre flux n m - real a * bin_width_of flux n,
                   upper_all_bins = bin_centre flux n m + real b * bin_width_of flux n,
                   sel_bins_array = map int [sel_lo m a..<sel_hi n m b]\<rparr>)
         \<and> h = (map (bin_centre flux n) [0..<nat n], bin_counts flux n,
                  take (sel_hi n m b - sel_lo m a) (drop (sel_lo m a) (map (bin_centre flux n) [0..<nat n])),
                  take (sel_hi n m b - sel_lo m a) (drop (sel_lo m a) (bin_counts flux n)),
                  filter (\<lambda>x. x \<ge> bin_centre flux n m - real a * bin_width_of flux n
                              \<and> x \<le> bin_centre flux n m + real b * bin_width_of flux n) flux)
         \<and> 4 \<le> a \<and> 4 \<le> b
         \<and> m < nat n \<and> 0 < bin_counts flux n ! m
         \<and> (\<forall>i<nat n. bin_counts flux n ! i \<le> bin_counts flux n ! m)
         \<and> (\<forall>i<m. bin_counts flux n ! i \<noteq> bin_counts flux n ! m)"
proof -
  from cont_histo_Inr [OF assms] obtain p ratio w where
    cw: "cont_histo_window flux rms_noise = Inr (p, ratio, w)"
    by blast
  from cont_histo_window_Inr [OF cw]
  have v: "valid_input flux rms_noise" and nb: "number_bins_of flux rms_noise = Inr (number_bins p)"
    and n3: "3 \<le> number_bins p"
    by simp_all
  define n where "n = number_bins p"
  from cont_histo_large [OF v nb n3] obtain m \<rho> a b where
    L: "cont_histo_bounds flux rms_noise =
             Inr (peak_at flux n m, Some \<rho>,
                  Some (bin_centre flux n m - real a * bin_width_of flux n,
                        bin_centre flux n m + real b * bin_width_of flux n))"
       "cont_histo_window flux rms_noise =
             Inr (peak_at flux n m, Some \<rho>,
                  \<lparr>lower_all_bins = bin_centre flux n m - real a * bin_width_of flux n,
                   upper_all_bins = bin_centre flux n m + real b * bin_width_of flux n,
                   sel_bins_array = map int [sel_lo m a..<sel_hi n m b]\<rparr>)"
       "cont_histo flux rms_noise =
             Inr (map (bin_centre flux n) [0..<nat n], bin_counts flux n,
                  take (sel_hi n m b - sel_lo m a) (drop (sel_lo m a) (map (bin_centre flux n) [0..<nat n])),
                  take (sel_hi n m b - sel_lo m a) (drop (sel_lo m a) (bin_counts flux n)),
                  filter (\<lambda>x. x \<ge> bin_centre flux n m - real a * bin_width_of flux n
                              \<and> x \<le> bin_centre flux n m + real b * bin_width_of flux n) flux)"
       "4 \<le> a" "4 \<le> b" "m < nat n" "0 < bin_counts flux n ! m"
       "\<forall>i<nat n. bin_counts flux n ! i \<le> bin_counts flux n ! m"
       "\<forall>i<m. bin_counts flux n ! i \<noteq> bin_counts flux n ! m"
    unfolding n_def [symmetric] by blast
  from L(3) assms have h: "h = (map (bin_centre flux n) [0..<nat n], bin_counts flux n,
                  take (sel_hi n m b - sel_lo m a) (drop (sel_lo m a) (map (bin_centre flux n) [0..<nat n])),
                  take (sel_hi n m b - sel_lo m a) (drop (sel_lo m a) (bin_counts flux n)),
                  filter (\<lambda>x. x \<ge> bin_centre flux n m - real a * bin_width_of flux n
                              \<and> x \<le> bin_centre flux n m + real b * bin_width_of flux n) flux)"
    by simp
  have nb': "number_bins_of flux rms_noise = Inr n" and n3': "3 \<le> n"
    using nb n3 by (simp_all add: n_def)
  show ?thesis
    apply (rule exI [of _ n])
    apply (rule exI [of _ m])
    apply (rule exI [of _ \<rho>])
    apply (rule exI [of _ a])
    apply (rule exI [of _ b])
    apply (intro conjI v nb' n3' L(1,2) h L(4-9))
    done
qed

lemma sel_interval:
  assumes "m < nat n" "3 \<le> n" "4 \<le> a" "4 \<le> b"
  shows "sel_lo m a \<le> m" "m < sel_hi n m b" "sel_hi n m b \<le> nat n"
    "3 \<le> sel_hi n m b - sel_lo m a"
  using assms by (simp_all add: sel_lo_def sel_hi_def min_def) linarith+

lemma peak_sample_in_window:
  assumes v: "valid_input flux rms_noise" and n: "0 < n" and m: "m < nat n"
    and x: "x \<in> set flux" "bin_of (Min (set flux)) (Max (set flux)) (nat n) x = m"
    and ab: "4 \<le> a" "4 \<le> b"
  shows "bin_centre flux n m - real a * bin_width_of flux n \<le> x
         \<and> x \<le> bin_centre flux n m + real b * bin_width_of flux n"
proof -
  let ?w = "bin_width_of flux n"
  have w: "0 < ?w" using v n by (rule bin_width_pos)
  have lohi: "Min (set flux) < Max (set flux)" using v by (simp add: valid_input_def)
  have nn: "0 < nat n" using n by simp
  have rn: "real (nat n) = real_of_int n" using n by simp
  from bin_of_range [OF lohi nn flux_in_range [OF x(1), THEN conjunct1]
      flux_in_range [OF x(1), THEN conjunct2]]
  have r: "Min (set flux) + real m * ?w \<le> x" "x \<le> Min (set flux) + (real m + 1) * ?w"
    unfolding x(2) bin_width_of_def rn by simp_all
  have a: "4 * ?w \<le> real a * ?w"
    using ab(1) w by (intro mult_right_mono) simp_all
  have b: "4 * ?w \<le> real b * ?w"
    using ab(2) w by (intro mult_right_mono) simp_all
  have d: "(real m + 1) * ?w = real m * ?w + ?w"
    by (simp add: algebra_simps)
  have c: "bin_centre flux n m = Min (set flux) + real m * ?w + ?w / 2"
    by (simp add: bin_centre_def)
  show ?thesis
    using r a b w unfolding c d by linarith
qed

lemma peak_bin_sample_ex:
  assumes "m < nat n" and "0 < bin_counts flux n ! m"
  shows "\<exists>x\<in>set flux. bin_of (Min (set flux)) (Max (set flux)) (nat n) x = m"
proof -
  have "0 < length (filter (\<lambda>x. bin_of (Min (set flux)) (Max (set flux)) (nat n) x = m) flux)"
    using assms by (simp add: bin_counts_nth)
  then have "filter (\<lambda>x. bin_of (Min (set flux)) (Max (set flux)) (nat n) x = m) flux \<noteq> []"
    by simp
  then show ?thesis
    by (simp only: filter_empty_conv) blast
qed

lemma np_median_Some:
  assumes "xs \<noteq> []"
  shows "np_median xs \<noteq> None"
proof (cases "odd (length xs)")
  case True
  have "np_median xs = Some (sort xs ! (length xs div 2))"
    using assms True by (simp add: np_median_def Let_def)
  then show ?thesis by (simp only: option.distinct not_False_eq_True)
next
  case False
  have "np_median xs = Some ((sort xs ! (length xs div 2 - 1) + sort xs ! (length xs div 2)) / 2)"
    using assms False by (simp add: np_median_def Let_def)
  then show ?thesis by (simp only: option.distinct not_False_eq_True)
qed

lemma fallback_window_Inr:
  assumes "fallback_window bins sel = Inr win"
  shows "\<exists>s0. py_get sel 0 = Inr s0 \<and> sel_bins_array win = [s0 - 2, s0 - 1, s0, s0 + 1, s0 + 2]"
proof (cases "py_get sel 0")
  case (Inl e)
  with assms show ?thesis by (simp add: fallback_window_def)
next
  case (Inr s0)
  have "sel_bins_array win = [s0 - 2, s0 - 1, s0, s0 + 1, s0 + 2]"
    using assms Inr by (auto simp: fallback_window_def Let_def err_bind_eq_Inr)
  with Inr show ?thesis by blast
qed

lemma np_mean_spec: "xs \<noteq> [] \<Longrightarrow> np_mean xs = Some (spec_mean xs)"
  by (simp add: np_mean_def spec_mean_def)

lemma np_std_spec: "xs \<noteq> [] \<Longrightarrow> np_std xs = Some (spec_std xs)"
  by (simp add: np_std_def np_mean_spec spec_std_def) (simp add: spec_mean_def)

lemma spec_std_0_2: "spec_std [0, 2] = 1"
  by (simp add: spec_std_def spec_mean_def)

lemma percentile_50_median:
  assumes "xs \<noteq> []"
  shows "np_percentile xs 50 = Inr (np_median xs)"
proof (cases "odd (length xs)")
  case True
  then obtain k where k: "length xs = 2 * k + 1" by (auto elim: oddE)
  have idx: "(50::real) / 100 * real (length xs - 1) = real k"
    by (simp add: k)
  have p: "np_percentile xs 50 = Inr (Some (sort xs ! k))"
    unfolding np_percentile_def Let_def idx using assms by simp
  have "length xs div 2 = k" by (simp add: k)
  then have "np_median xs = Some (sort xs ! k)"
    using True assms by (simp add: np_median_def Let_def)
  with p show ?thesis by simp
next
  case False
  then obtain k where k: "length xs = 2 * k" by (auto elim: evenE)
  with assms have k0: "0 < k" by (cases xs) auto
  then obtain j where j: "k = Suc j" by (cases k) auto
  have idx: "(50::real) / 100 * real (length xs - 1) = real j + 1 / 2"
    by (simp add: k j)
  have fl: "\<lfloor>real j + 1 / 2\<rfloor> = int j"
    by (simp add: floor_eq_iff)
  have mn: "min (Suc j) (length xs - Suc 0) = Suc j" "min (j + 1) (length xs - 1) = Suc j"
    by (simp_all add: k j)
  have p: "np_percentile xs 50 = Inr (Some (sort xs ! j + 1 / 2 * (sort xs ! Suc j - sort xs ! j)))"
    unfolding np_percentile_def Let_def idx fl using assms by (simp add: mn)
  have d: "length xs div 2 = Suc j" "length xs div 2 - 1 = j"
    by (simp_all add: k j)
  have "np_median xs = Some ((sort xs ! j + sort xs ! Suc j) / 2)"
    using False assms by (simp add: np_median_def Let_def d)
  with p show ?thesis by (simp add: field_simps)
qed

lemma err_bind_Inl_cases:
  assumes "err_bind m f = Inl e"
    and "m = Inl e \<Longrightarrow> P"
    and "\<And>x. m = Inr x \<Longrightarrow> f x = Inl e \<Longrightarrow> P"
  shows P
  using assms by (cases m) simp_all

lemma py_get_python_error: "py_get xs i = Inl e \<Longrightarrow> python_error e"
  by (drule py_get_error) (simp add: python_error_def)

lemma arr_max_python_error: "arr_max xs = Inl e \<Longrightarrow> python_error e"
  by (cases xs) (simp_all add: arr_max_def python_error_def)

lemma arr_min_python_error: "arr_min xs = Inl e \<Longrightarrow> python_error e"
  by (cases xs) (simp_all add: arr_min_def python_error_def)

lemma number_bins_python_error: "number_bins_of flux rms_noise = Inl e \<Longrightarrow> python_error e"
  by (cases flux)
     (auto simp: number_bins_of_def np_amax_def np_amin_def python_error_def split: if_splits)

lemma np_histogram_python_error: "np_histogram a n = Inl e \<Longrightarrow> python_error e"
  by (auto simp: np_histogram_def Let_def python_error_def split: if_splits)

lemma all_histogram_python_error:
  assumes "all_histogram flux rms_noise = Inl e"
  shows "python_error e"
  using assms unfolding all_histogram_def
  by (auto elim!: err_bind_Inl_cases simp: Let_def split: if_splits prod.splits
      dest: number_bins_python_error np_histogram_python_error py_get_python_error)

lemma find_peak_python_error:
  assumes "find_peak flux rms_noise = Inl e"
  shows "python_error e"
  using assms unfolding find_peak_def
  by (auto elim!: err_bind_Inl_cases split: prod.splits
      dest: all_histogram_python_error arr_max_python_error py_get_python_error)

lemma all_number_left_python_error: "all_number_left p = Inl e \<Longrightarrow> python_error e"
  unfolding all_number_left_def
  by (auto elim!: err_bind_Inl_cases dest: arr_max_python_error py_get_python_error)

lemma all_number_right_python_error: "all_number_right p = Inl e \<Longrightarrow> python_error e"
  unfolding all_number_right_def
  by (auto elim!: err_bind_Inl_cases dest: arr_min_python_error py_get_python_error)

lemma cont_histo_bounds_python_error:
  assumes "cont_histo_bounds flux rms_noise = Inl e"
  shows "python_error e"
  using assms unfolding cont_histo_bounds_def
  by (auto elim!: err_bind_Inl_cases simp: Let_def
      dest: find_peak_python_error all_number_left_python_error all_number_right_python_error)

lemma select_window_python_error:
  assumes "select_window p bounds = Inl e"
  shows "python_error e"
proof (cases bounds)
  case None
  with assms show ?thesis by (simp add: select_window_def python_error_def)
next
  case (Some b)
  obtain lo hi where b: "b = (lo, hi)" by (cases b)
  from assms Some b have "\<exists>sel. fallback_window (all_bins p) sel = Inl e"
    by (auto simp: select_window_def Let_def split: if_splits)
  then show ?thesis
    by (auto dest: fallback_window_error simp: python_error_def)
qed

lemma cont_histo_window_python_error:
  assumes "cont_histo_window flux rms_noise = Inl e"
  shows "python_error e"
  using assms unfolding cont_histo_window_def
  by (auto elim!: err_bind_Inl_cases split: prod.splits
      dest: cont_histo_bounds_python_error select_window_python_error)

lemma cont_histo_python_error:
  assumes "cont_histo flux rms_noise = Inl e"
  shows "python_error e"
  using assms unfolding cont_histo_def
  by (auto elim!: err_bind_Inl_cases split: prod.splits
      dest: cont_histo_window_python_error py_get_python_error)

lemma cont_histo_nonempty:
  assumes "cont_histo flux rms_noise = Inr (bins, hist, sel_bins, sel_hist, sel_flux)"
  shows "hist \<noteq> [] \<and> sel_flux \<noteq> []"
proof -
  from cont_histo_char [OF assms] obtain n m \<rho> a b where
    v: "valid_input flux rms_noise" and n3: "3 \<le> n"
    and h: "(bins, hist, sel_bins, sel_hist, sel_flux) =
               (map (bin_centre flux n) [0..<nat n], bin_counts flux n,
                  take (sel_hi n m b - sel_lo m a) (drop (sel_lo m a) (map (bin_centre flux n) [0..<nat n])),
                  take (sel_hi n m b - sel_lo m a) (drop (sel_lo m a) (bin_counts flux n)),
                  filter (\<lambda>x. x \<ge> bin_centre flux n m - real a * bin_width_of flux n
                              \<and> x \<le> bin_centre flux n m + real b * bin_width_of flux n) flux)"
    and ab: "4 \<le> a" "4 \<le> b"
    and m: "m < nat n" "0 < bin_counts flux n ! m"
    by blast
  have n0: "0 < n" using n3 by simp
  have "length hist = nat n" using h by (simp add: length_bin_counts)
  then have 1: "hist \<noteq> []" using n3 by auto
  from peak_bin_sample_ex [OF m] obtain x where
    x: "x \<in> set flux" "bin_of (Min (set flux)) (Max (set flux)) (nat n) x = m"
    by blast
  from peak_sample_in_window [OF v n0 m(1) x ab] x(1) h
  have "x \<in> set sel_flux" by simp
  then have "sel_flux \<noteq> []" by auto
  with 1 show ?thesis by simp
qed

lemma c_Gaussian_result:
  assumes "cont_histo flux rms_noise = Inr (bins, hist, sel_bins, sel_hist, sel_flux)"
  defines "init \<equiv> (Some (real (Max (set hist))), Some (spec_mean sel_flux), Some (spec_std sel_flux))"
  shows "c_Gaussian leastsq flux rms_noise =
           Inr (fst (snd (fst (leastsq init (bins, hist)))),
                snd (snd (fst (leastsq init (bins, hist)))),
                fst (snd (fst (leastsq init (sel_bins, sel_hist)))),
                snd (snd (fst (leastsq init (sel_bins, sel_hist)))))"
proof -
  from cont_histo_nonempty [OF assms(1)] have ne: "hist \<noteq> []" "sel_flux \<noteq> []"
    by simp_all
  show ?thesis
    unfolding c_Gaussian_def assms(1) init_def
    by (simp only: err_bind_Inr prod.case Let_def arr_max_eq [OF ne(1)]
        np_mean_spec [OF ne(2)] np_std_spec [OF ne(2)])
qed

lemma c_Gaussian_error:
  assumes "c_Gaussian leastsq flux rms_noise = Inl e"
  shows "cont_histo flux rms_noise = Inl e"
proof (cases "cont_histo flux rms_noise")
  case (Inl e')
  with assms show ?thesis by (simp add: c_Gaussian_def)
next
  case (Inr h)
  obtain bins hist sel_bins sel_hist sel_flux where
    h: "h = (bins, hist, sel_bins, sel_hist, sel_flux)"
    by (cases h)
  from c_Gaussian_result [OF Inr [unfolded h], of leastsq] assms show ?thesis by simp
qed

lemma spec_std_example: "spec_std [0, 3, 3, 3, 3, 3, 3, 6] = 3 / 2"
proof -
  have "spec_mean [0, 3, 3, 3, 3, 3, 3, 6] = 3"
    by (simp add: spec_mean_def)
  then have "spec_std [0, 3, 3, 3, 3, 3, 3, 6] = sqrt (9 / 4)"
    by (simp add: spec_std_def) (simp add: spec_mean_def)
  also have "sqrt (9 / 4) = 3 / 2"
    by (rule real_sqrt_unique) (simp_all add: power2_eq_square)
  finally show ?thesis .
qed

lemma spec_mean_example: "spec_mean [0, 3, 3, 3, 3, 3, 3, 6] = 3"
  by (simp add: spec_mean_def)

lemma cont_histo_example:
  "cont_histo [0, 3, 3, 3, 3, 3, 3, 6] 1 =
     Inr ([1, 3, 5], [1, 6, 1], [1, 3, 5], [1, 6, 1], [0, 3, 3, 3, 3, 3, 3, 6])"
  by code_simp

section \<open>The claims\<close>

subsection \<open>C1: the window contains the peak\<close>

text \<open>
  C1: for every valid input on which \<^verbatim>\<open>cont_histo\<close> returns, the selected bin indices
  (\<^verbatim>\<open>sel_bins_array\<close>) are a run \<open>first, \<dots>, last\<close> of indices of the histogram that
  contains the peak index and has at least 3 elements, and the returned \<^verbatim>\<open>sel_bins\<close> and
  \<^verbatim>\<open>sel_hist\<close> are the bin centres and counts at exactly those indices. The peak index is
  the lowest index whose count is maximal.
\<close>

theorem window_contains_peak:
  assumes "valid_input flux rms_noise"
    and "cont_histo flux rms_noise = Inr (bins, hist, sel_bins, sel_hist, sel_flux)"
  shows "\<exists>p ratio w first last.
           cont_histo_window flux rms_noise = Inr (p, ratio, w)
         \<and> bins = all_bins p \<and> hist = all_hist p \<and> length bins = length hist
         \<and> all_number_max p < length hist
         \<and> (\<forall>i<length hist. hist ! i \<le> hist ! all_number_max p)
         \<and> (\<forall>i<all_number_max p. hist ! i < hist ! all_number_max p)
         \<and> sel_bins_array w = map int [first..<Suc last]
         \<and> first \<le> all_number_max p \<and> all_number_max p \<le> last \<and> last < length hist
         \<and> int (all_number_max p) \<in> set (sel_bins_array w)
         \<and> 3 \<le> length (sel_bins_array w)
         \<and> sel_bins = map (\<lambda>i. bins ! i) [first..<Suc last]
         \<and> sel_hist = map (\<lambda>i. hist ! i) [first..<Suc last]"
proof -
  from cont_histo_char [OF assms(2)] obtain n m \<rho> a b where
    n3: "3 \<le> n"
    and cw: "cont_histo_window flux rms_noise =
             Inr (peak_at flux n m, Some \<rho>,
                  \<lparr>lower_all_bins = bin_centre flux n m - real a * bin_width_of flux n,
                   upper_all_bins = bin_centre flux n m + real b * bin_width_of flux n,
                   sel_bins_array = map int [sel_lo m a..<sel_hi n m b]\<rparr>)"
    and h: "(bins, hist, sel_bins, sel_hist, sel_flux) =
               (map (bin_centre flux n) [0..<nat n], bin_counts flux n,
                  take (sel_hi n m b - sel_lo m a) (drop (sel_lo m a) (map (bin_centre flux n) [0..<nat n])),
                  take (sel_hi n m b - sel_lo m a) (drop (sel_lo m a) (bin_counts flux n)),
                  filter (\<lambda>x. x \<ge> bin_centre flux n m - real a * bin_width_of flux n
                              \<and> x \<le> bin_centre flux n m + real b * bin_width_of flux n) flux)"
    and ab: "4 \<le> a" "4 \<le> b"
    and m: "m < nat n" "0 < bin_counts flux n ! m"
      "\<forall>i<nat n. bin_counts flux n ! i \<le> bin_counts flux n ! m"
      "\<forall>i<m. bin_counts flux n ! i \<noteq> bin_counts flux n ! m"
    by blast
  define first where "first = sel_lo m a"
  define last where "last = sel_hi n m b - 1"
  from sel_interval [OF m(1) n3 ab]
  have iv: "first \<le> m" "m \<le> last" "last < nat n" "Suc last = sel_hi n m b"
    "3 \<le> Suc last - first"
    by (simp_all add: first_def last_def)
  let ?p = "peak_at flux n m"
  let ?w = "\<lparr>lower_all_bins = bin_centre flux n m - real a * bin_width_of flux n,
             upper_all_bins = bin_centre flux n m + real b * bin_width_of flux n,
             sel_bins_array = map int [sel_lo m a..<sel_hi n m b]\<rparr>"
  have b: "bins = all_bins ?p" and hh: "hist = all_hist ?p"
    using h by simp_all
  have lh: "length hist = nat n" and lb: "length bins = nat n"
    using h by (simp_all add: length_bin_counts)
  have 1: "all_number_max ?p < length hist" using m(1) lh by simp
  have 2: "\<forall>i<length hist. hist ! i \<le> hist ! all_number_max ?p"
    using m(3) lh hh by simp
  have 3: "\<forall>i<all_number_max ?p. hist ! i < hist ! all_number_max ?p"
  proof (intro allI impI)
    fix i assume i: "i < all_number_max ?p"
    then have "i < m" by simp
    with m(1,3,4) have "bin_counts flux n ! i \<le> bin_counts flux n ! m"
      "bin_counts flux n ! i \<noteq> bin_counts flux n ! m"
      by simp_all
    then show "hist ! i < hist ! all_number_max ?p"
      using hh by simp
  qed
  have 4: "sel_bins_array ?w = map int [first..<Suc last]"
    by (simp add: first_def iv(4))
  have lt: "m < Suc last" by (rule le_imp_less_Suc [OF iv(2)])
  have "m \<in> {first..<Suc last}"
    by (rule atLeastLessThan_iff [THEN iffD2]) (rule conjI [OF iv(1) lt])
  then have "m \<in> set [first..<Suc last]"
    by (simp only: set_upt)
  then have "int m \<in> set (map int [first..<Suc last])"
    by (simp only: set_map) (rule imageI)
  then have 5: "int (all_number_max ?p) \<in> set (sel_bins_array ?w)"
    unfolding 4 by (simp only: peak_at_simps)
  have 6: "3 \<le> length (sel_bins_array ?w)"
    unfolding 4 using iv(5) by (simp only: length_map length_upt)
  have hi: "Suc last \<le> length bins" "Suc last \<le> length hist"
    using iv(3) lh lb by simp_all
  have 7: "sel_bins = map (\<lambda>i. bins ! i) [first..<Suc last]"
    using h take_drop_nth [OF hi(1), of first] by (simp add: first_def iv(4))
  have 8: "sel_hist = map (\<lambda>i. hist ! i) [first..<Suc last]"
    using h take_drop_nth [OF hi(2), of first] by (simp add: first_def iv(4))
  have 9: "first \<le> all_number_max ?p" "all_number_max ?p \<le> last" "last < length hist"
    using iv lh by simp_all
  have 10: "length bins = length hist" using lh lb by simp
  show ?thesis
    apply (rule exI [of _ ?p])
    apply (rule exI [of _ "Some \<rho>"])
    apply (rule exI [of _ ?w])
    apply (rule exI [of _ first])
    apply (rule exI [of _ last])
    apply (intro conjI cw b hh 10 1 2 3 4 9 5 6 7 8)
    done
qed

theorem window_contains_peak_witness:
  "valid_input [0, 3, 3, 3, 3, 3, 3, 6] 1
   \<and> cont_histo [0, 3, 3, 3, 3, 3, 3, 6] 1 =
        Inr ([1, 3, 5], [1, 6, 1], [1, 3, 5], [1, 6, 1], [0, 3, 3, 3, 3, 3, 3, 6])
   \<and> (\<exists>p ratio w. cont_histo_window [0, 3, 3, 3, 3, 3, 3, 6] 1 = Inr (p, ratio, w)
         \<and> int (all_number_max p) \<in> set (sel_bins_array w) \<and> 3 \<le> length (sel_bins_array w))"
proof -
  have v: "valid_input [0, 3, 3, 3, 3, 3, 3, 6] 1"
    by (simp add: valid_input_def)
  have c: "cont_histo [0, 3, 3, 3, 3, 3, 3, 6] 1 =
        Inr ([1, 3, 5], [1, 6, 1], [1, 3, 5], [1, 6, 1], [0, 3, 3, 3, 3, 3, 3, 6])"
    by code_simp
  from window_contains_peak [OF v c] v c show ?thesis
    by blast
qed

subsection \<open>C2: the flux window derived from the ratio\<close>

text \<open>
  C2: for every valid input on which \<^verbatim>\<open>cont_histo\<close> reaches lines 289 to 297, the ratio is a
  number \<open>\<rho>\<close> and the flux bounds those lines assign are: from the peak centre minus 8 bin
  widths to the peak centre plus 4 when \<open>\<rho> \<ge> 0.66\<close>; from minus 4 to plus 8 when
  \<open>\<rho> \<le> 0.33\<close>; from minus 5 to plus 5 when \<open>0.33 < \<rho> < 0.66\<close>, in particular when
  \<open>\<rho> = 0.5\<close>. The peak centre is the bin centre at the peak index and the bin width is
  the positive number \<open>(max(flux) - min(flux)) / number_bins\<close>.
\<close>

theorem window_from_ratio:
  assumes "valid_input flux rms_noise"
    and "cont_histo_bounds flux rms_noise = Inr (p, ratio, bounds)"
  defines "c \<equiv> all_bins_max p" and "bw \<equiv> bin_width p"
  shows "\<exists>\<rho>. ratio = Some \<rho>
           \<and> (66 / 100 \<le> \<rho> \<longrightarrow> bounds = Some (c - 8 * bw, c + 4 * bw))
           \<and> (\<rho> \<le> 33 / 100 \<longrightarrow> bounds = Some (c - 4 * bw, c + 8 * bw))
           \<and> (33 / 100 < \<rho> \<and> \<rho> < 66 / 100 \<longrightarrow> bounds = Some (c - 5 * bw, c + 5 * bw))
           \<and> (\<rho> = 1 / 2 \<longrightarrow> bounds = Some (c - 5 * bw, c + 5 * bw))
           \<and> c = all_bins p ! all_number_max p
           \<and> bw = (Max (set flux) - Min (set flux)) / real_of_int (number_bins p)
           \<and> 0 < bw"
proof -
  from cont_histo_bounds_char [OF assms(1,2)] obtain n m \<rho> where
    n2: "2 \<le> n" and p: "p = peak_at flux n m" and r: "ratio = Some \<rho>"
    and b: "bounds = window_bounds (Some \<rho>) (bin_centre flux n m) (bin_width_of flux n)"
    and m: "m < nat n"
    by blast
  have c: "c = bin_centre flux n m" and bw: "bw = bin_width_of flux n"
    by (simp_all add: c_def bw_def p)
  have w: "0 < bin_width_of flux n"
    using assms(1) n2 by (intro bin_width_pos) simp_all
  have 1: "66 / 100 \<le> \<rho> \<longrightarrow> bounds = Some (c - 8 * bw, c + 4 * bw)"
    by (simp add: b c bw window_bounds_Some)
  have 2: "\<rho> \<le> 33 / 100 \<longrightarrow> bounds = Some (c - 4 * bw, c + 8 * bw)"
    by (simp add: b c bw window_bounds_Some)
  have 3: "33 / 100 < \<rho> \<and> \<rho> < 66 / 100 \<longrightarrow> bounds = Some (c - 5 * bw, c + 5 * bw)"
    by (simp add: b c bw window_bounds_Some)
  have 4: "\<rho> = 1 / 2 \<longrightarrow> bounds = Some (c - 5 * bw, c + 5 * bw)"
    by (simp add: b c bw window_bounds_Some)
  have 5: "c = all_bins p ! all_number_max p"
    using m by (simp add: c p)
  have 6: "bw = (Max (set flux) - Min (set flux)) / real_of_int (number_bins p)"
    by (simp add: bw p bin_width_of_def)
  have 7: "0 < bw" using w by (simp add: bw)
  from r 1 2 3 4 5 6 7 show ?thesis by blast
qed

theorem window_from_ratio_witness:
  "valid_input [0, 3, 3, 3, 3, 3, 3, 6] 1
   \<and> cont_histo_bounds [0, 3, 3, 3, 3, 3, 3, 6] 1 =
         Inr (\<lparr>number_bins = 3, all_hist = [1, 6, 1], all_bin_edges = [0, 2, 4, 6],
                all_bins = [1, 3, 5], all_number_max = 1, bin_width = 2, all_bins_max = 3\<rparr>,
              Some (1 / 2), Some (3 - 5 * 2, 3 + 5 * 2))
   \<and> cont_histo_bounds [0, 1, 1, 1, 2, 8] 1 =
         Inr (\<lparr>number_bins = 4, all_hist = [4, 1, 0, 1], all_bin_edges = [0, 2, 4, 6, 8],
                all_bins = [1, 3, 5, 7], all_number_max = 0, bin_width = 2, all_bins_max = 1\<rparr>,
              Some 1, Some (1 - 8 * 2, 1 + 4 * 2))
   \<and> cont_histo_bounds [0, 6, 7, 7, 7, 8] 1 =
         Inr (\<lparr>number_bins = 4, all_hist = [1, 0, 0, 5], all_bin_edges = [0, 2, 4, 6, 8],
                all_bins = [1, 3, 5, 7], all_number_max = 3, bin_width = 2, all_bins_max = 7\<rparr>,
              Some 0, Some (7 - 4 * 2, 7 + 8 * 2))"
proof -
  have v: "valid_input [0, 3, 3, 3, 3, 3, 3, 6] 1" "valid_input [0, 1, 1, 1, 2, 8] 1"
    "valid_input [0, 6, 7, 7, 7, 8] 1"
    by (simp_all add: valid_input_def)
  have c1: "cont_histo_bounds [0, 3, 3, 3, 3, 3, 3, 6] 1 =
         Inr (\<lparr>number_bins = 3, all_hist = [1, 6, 1], all_bin_edges = [0, 2, 4, 6],
                all_bins = [1, 3, 5], all_number_max = 1, bin_width = 2, all_bins_max = 3\<rparr>,
              Some (1 / 2), Some (- 7, 13))"
    by code_simp
  have c2: "cont_histo_bounds [0, 1, 1, 1, 2, 8] 1 =
         Inr (\<lparr>number_bins = 4, all_hist = [4, 1, 0, 1], all_bin_edges = [0, 2, 4, 6, 8],
                all_bins = [1, 3, 5, 7], all_number_max = 0, bin_width = 2, all_bins_max = 1\<rparr>,
              Some 1, Some (- 15, 9))"
    by code_simp
  have c3: "cont_histo_bounds [0, 6, 7, 7, 7, 8] 1 =
         Inr (\<lparr>number_bins = 4, all_hist = [1, 0, 0, 5], all_bin_edges = [0, 2, 4, 6, 8],
                all_bins = [1, 3, 5, 7], all_number_max = 3, bin_width = 2, all_bins_max = 7\<rparr>,
              Some 0, Some (- 1, 23))"
    by code_simp
  from window_from_ratio [OF v(1) c1] window_from_ratio [OF v(2) c2] window_from_ratio [OF v(3) c3]
    v c1 c2 c3
  show ?thesis by simp
qed

subsection \<open>C3: the degenerate window\<close>

text \<open>
  C3, as stated, fails: for the flux \<open>[0, 4]\<close> and the noise \<open>1\<close> two bins are selected, the
  fallback indices are \<open>-2, \<dots>, 2\<close>, the read of \<^verbatim>\<open>all_bins\<close> at \<open>-2\<close> wraps around to the
  first centre without an error, and the read at \<open>2\<close> raises IndexError: the exception of
  the Python list, not a DegenerateWindowError.
\<close>

theorem C3_counterexample:
  "cont_histo_bounds [0, 4] 1 =
     Inr (\<lparr>number_bins = 2, all_hist = [1, 1], all_bin_edges = [0, 2, 4], all_bins = [1, 3],
            all_number_max = 0, bin_width = 2, all_bins_max = 1\<rparr>, Some 1, Some (- 15, 9))
   \<and> select_window \<lparr>number_bins = 2, all_hist = [1, 1], all_bin_edges = [0, 2, 4], all_bins = [1, 3],
            all_number_max = 0, bin_width = 2, all_bins_max = 1\<rparr> (Some (- 15, 9))
       = fallback_window [1, 3] [0, 1]
   \<and> py_get [1, 3 :: real] (0 - 2) = Inr 1
   \<and> py_get [1, 3 :: real] (0 + 2) = Inl IndexError
   \<and> fallback_window [1, 3] [0, 1] = Inl IndexError
   \<and> cont_histo [0, 4] 1 = Inl IndexError
   \<and> cont_histo [0, 4] 1 \<noteq> Inl DegenerateWindowError"
proof -
  have 1: "cont_histo_bounds [0, 4] 1 =
     Inr (\<lparr>number_bins = 2, all_hist = [1, 1], all_bin_edges = [0, 2, 4], all_bins = [1, 3],
            all_number_max = 0, bin_width = 2, all_bins_max = 1\<rparr>, Some 1, Some (- 15, 9))"
    by code_simp
  have 2: "select_window \<lparr>number_bins = 2, all_hist = [1, 1], all_bin_edges = [0, 2, 4], all_bins = [1, 3],
            all_number_max = 0, bin_width = 2, all_bins_max = 1\<rparr> (Some (- 15, 9))
       = fallback_window [1, 3] [0, 1]"
    by code_simp
  have 3: "py_get [1, 3 :: real] (0 - 2) = Inr 1"
    by code_simp
  have 4: "py_get [1, 3 :: real] (0 + 2) = Inl IndexError"
    by code_simp
  have 5: "fallback_window [1, 3] [0, 1] = Inl IndexError"
    by code_simp
  have 6: "cont_histo [0, 4] 1 = Inl IndexError"
    by code_simp
  from 1 2 3 4 5 6 show ?thesis by simp
qed

text \<open>
  C3, amended: when fewer than 3 bins are selected, \<^verbatim>\<open>cont_histo\<close> forces the five indices
  \<open>first_selected - 2, \<dots>, first_selected + 2\<close> and reads the new bounds from \<^verbatim>\<open>all_bins\<close> at
  the first and the last of them; the only exception this can raise is IndexError, and it
  is raised whenever \<open>first_selected + 2\<close> is at or beyond the end of the histogram. For
  valid input fewer than 3 bins are selected exactly when the histogram has 2 bins; the
  selected indices are then \<open>0, 1\<close> and \<^verbatim>\<open>cont_histo\<close> raises IndexError.
\<close>

theorem fallback_raises_IndexError:
  "(\<forall>win. fallback_window bins sel = Inr win \<longrightarrow>
       (\<exists>s0. py_get sel 0 = Inr s0 \<and> sel_bins_array win = [s0 - 2, s0 - 1, s0, s0 + 1, s0 + 2]))
   \<and> (\<forall>e. fallback_window bins sel = Inl e \<longrightarrow> e = IndexError)
   \<and> (\<forall>s0. py_get sel 0 = Inr s0 \<and> int (length bins) \<le> s0 + 2 \<longrightarrow>
          fallback_window bins sel = Inl IndexError)
   \<and> (valid_input flux rms_noise \<and> cont_histo_bounds flux rms_noise = Inr (p, ratio, Some (lo, hi)) \<longrightarrow>
        (let selected = np_where (\<lambda>i. all_bins p ! i \<ge> lo \<and> all_bins p ! i \<le> hi)
                          (length (all_bins p))
         in (length selected < 3 \<longleftrightarrow> number_bins p = 2)
          \<and> (length selected < 3 \<longrightarrow>
                selected = [0, 1]
              \<and> select_window p (Some (lo, hi)) = fallback_window (all_bins p) [0, 1]
              \<and> fallback_window (all_bins p) [0, 1] = Inl IndexError
              \<and> cont_histo flux rms_noise = Inl IndexError)))"
proof (intro conjI allI impI)
  fix win assume "fallback_window bins sel = Inr win"
  then show "\<exists>s0. py_get sel 0 = Inr s0 \<and> sel_bins_array win = [s0 - 2, s0 - 1, s0, s0 + 1, s0 + 2]"
    by (rule fallback_window_Inr)
next
  fix e assume "fallback_window bins sel = Inl e"
  then show "e = IndexError" by (rule fallback_window_error)
next
  fix s0 assume "py_get sel 0 = Inr s0 \<and> int (length bins) \<le> s0 + 2"
  then show "fallback_window bins sel = Inl IndexError"
    using fallback_window_past_end by blast
next
  assume a: "valid_input flux rms_noise \<and> cont_histo_bounds flux rms_noise = Inr (p, ratio, Some (lo, hi))"
  then have v: "valid_input flux rms_noise"
    and cb: "cont_histo_bounds flux rms_noise = Inr (p, ratio, Some (lo, hi))"
    by simp_all
  define selected where
    "selected = np_where (\<lambda>i. all_bins p ! i \<ge> lo \<and> all_bins p ! i \<le> hi) (length (all_bins p))"
  from find_peak_Inr_valid [OF cont_histo_bounds_Inr [OF cb]]
  have nb: "number_bins_of flux rms_noise = Inr (number_bins p)" and n2: "2 \<le> number_bins p"
    by simp_all
  have two: "selected = [0, 1] \<and> select_window p (Some (lo, hi)) = fallback_window (all_bins p) [0, 1]
              \<and> fallback_window (all_bins p) [0, 1] = Inl IndexError
              \<and> cont_histo flux rms_noise = Inl IndexError" if "number_bins p = 2"
  proof -
    from nb that have nb2: "number_bins_of flux rms_noise = Inr 2" by simp
    from cont_histo_two [OF v nb2] cb show ?thesis
      unfolding selected_def by (elim exE conjE) simp
  qed
  have three: "\<not> length selected < 3" if "3 \<le> number_bins p"
  proof -
    from cont_histo_large [OF v nb that] obtain m \<rho> a b where
      L: "cont_histo_bounds flux rms_noise =
             Inr (peak_at flux (number_bins p) m, Some \<rho>,
                  Some (bin_centre flux (number_bins p) m - real a * bin_width_of flux (number_bins p),
                        bin_centre flux (number_bins p) m + real b * bin_width_of flux (number_bins p)))"
      and ab: "4 \<le> a" "4 \<le> b" and m: "m < nat (number_bins p)"
      by blast
    from L cb have p: "p = peak_at flux (number_bins p) m"
      and lo: "lo = bin_centre flux (number_bins p) m - real a * bin_width_of flux (number_bins p)"
      and hi: "hi = bin_centre flux (number_bins p) m + real b * bin_width_of flux (number_bins p)"
      by simp_all
    have w: "0 < bin_width_of flux (number_bins p)"
      using v that by (intro bin_width_pos) simp_all
    have ab': "all_bins p = map (bin_centre flux (number_bins p)) [0..<nat (number_bins p)]"
      by (subst p) simp
    have "selected = [m - a..<min (nat (number_bins p)) (m + b + 1)]"
      unfolding selected_def ab' lo hi by (rule selected_indices [OF w m])
    moreover have "3 \<le> nat (number_bins p)" using that by simp
    ultimately show ?thesis
      using interval_length(1) [OF m _ ab, of ] by simp
  qed
  have iff: "length selected < 3 \<longleftrightarrow> number_bins p = 2"
  proof
    assume "length selected < 3"
    with three have "\<not> 3 \<le> number_bins p" by blast
    with n2 show "number_bins p = 2" by simp
  next
    assume "number_bins p = 2"
    with two have "selected = [0, 1]" by simp
    then show "length selected < 3" by simp
  qed
  show "let selected = np_where (\<lambda>i. all_bins p ! i \<ge> lo \<and> all_bins p ! i \<le> hi)
                          (length (all_bins p))
         in (length selected < 3 \<longleftrightarrow> number_bins p = 2)
          \<and> (length selected < 3 \<longrightarrow>
                selected = [0, 1]
              \<and> select_window p (Some (lo, hi)) = fallback_window (all_bins p) [0, 1]
              \<and> fallback_window (all_bins p) [0, 1] = Inl IndexError
              \<and> cont_histo flux rms_noise = Inl IndexError)"
    unfolding Let_def selected_def [symmetric] using iff two by blast
qed

theorem fallback_raises_IndexError_witness:
  "fallback_window [1, 3, 5, 7, 9] [2] =
     Inr \<lparr>lower_all_bins = 1, upper_all_bins = 9, sel_bins_array = [0, 1, 2, 3, 4]\<rparr>
   \<and> py_get [2 :: int] 0 = Inr 2
   \<and> valid_input [1, 2, 5] 1
   \<and> cont_histo_bounds [1, 2, 5] 1 =
       Inr (\<lparr>number_bins = 2, all_hist = [2, 1], all_bin_edges = [1, 3, 5], all_bins = [2, 4],
              all_number_max = 0, bin_width = 2, all_bins_max = 2\<rparr>, Some 1, Some (- 14, 10))
   \<and> fallback_window [2, 4] [0, 1] = Inl IndexError
   \<and> cont_histo [1, 2, 5] 1 = Inl IndexError"
proof -
  have f: "fallback_window [1, 3, 5, 7, 9] [2] =
     Inr \<lparr>lower_all_bins = 1, upper_all_bins = 9, sel_bins_array = [0, 1, 2, 3, 4]\<rparr>"
    by code_simp
  have g: "py_get [2 :: int] 0 = Inr 2"
    by code_simp
  have v: "valid_input [1, 2, 5] 1"
    by (simp add: valid_input_def)
  have cb: "cont_histo_bounds [1, 2, 5] 1 =
       Inr (\<lparr>number_bins = 2, all_hist = [2, 1], all_bin_edges = [1, 3, 5], all_bins = [2, 4],
              all_number_max = 0, bin_width = 2, all_bins_max = 2\<rparr>, Some 1, Some (- 14, 10))"
    by code_simp
  let ?p = "\<lparr>number_bins = 2, all_hist = [2, 1], all_bin_edges = [1, 3, 5], all_bins = [2, 4],
              all_number_max = 0, bin_width = 2, all_bins_max = 2\<rparr>"
  note t = fallback_raises_IndexError [where bins = "[1, 3, 5, 7, 9]" and sel = "[2]"
      and flux = "[1, 2, 5]" and rms_noise = 1 and p = ?p and ratio = "Some 1"
      and lo = "- 14" and hi = 10]
  from t v cb have "number_bins ?p = 2 \<longrightarrow> cont_histo [1, 2, 5] 1 = Inl IndexError"
    unfolding Let_def by blast
  then have c: "cont_histo [1, 2, 5] 1 = Inl IndexError"
    by simp
  have g0: "py_get [0, 1 :: int] 0 = Inr 0 \<and> int (length [2, 4 :: real]) \<le> 0 + 2"
    by (simp add: py_get_0)
  note t' = fallback_raises_IndexError [where bins = "[2, 4]" and sel = "[0, 1]"
      and flux = "[1, 2, 5]" and rms_noise = 1 and p = ?p and ratio = "Some 1"
      and lo = "- 14" and hi = 10]
  from t' g0 have e: "fallback_window [2, 4] [0, 1] = Inl IndexError"
    by blast
  from f g v cb e c show ?thesis by (intro conjI)
qed

subsection \<open>C4: a flux array narrower than two noise widths\<close>

text \<open>
  C4, as stated, fails: for the flux \<open>[0, 1]\<close> and the noise \<open>1\<close> the bin count of line 275
  is \<open>0\<close>, it is handed to the histogram primitive as it is (nothing clamps it to 1), and
  the error that comes back is the primitive's ValueError, not an EmptyFluxError.
\<close>

theorem C4_counterexample:
  "number_bins_of [0, 1] 1 = Inr 0 \<and> np_histogram [0, 1] 0 = Inl ValueError
   \<and> cont_histo [0, 1] 1 = Inl ValueError \<and> cont_histo [0, 1] 1 \<noteq> Inl EmptyFluxError"
proof -
  have n: "number_bins_of [0, 1] 1 = Inr 0"
    by (simp add: number_bins_of_def np_amax_def np_amin_def py_int_def)
  have h: "np_histogram [0, 1] 0 = Inl ValueError"
    by (simp add: np_histogram_def)
  have "cont_histo [0, 1] 1 = Inl ValueError"
    by (simp add: cont_histo_def cont_histo_window_def cont_histo_bounds_def find_peak_def
        all_histogram_def n h)
  with n h show ?thesis by simp
qed

text \<open>
  C4, amended: when the flux array is empty, or the noise is positive and the spread
  \<open>max(flux) - min(flux)\<close> is below \<open>2 * rms_noise\<close> (in particular when the array is
  constant), \<^verbatim>\<open>cont_histo\<close> raises ValueError and returns no histogram; for a non-empty
  array the bin count is \<open>0\<close>, unclamped, and it is the histogram primitive that rejects it.
\<close>

theorem narrow_flux_raises_ValueError:
  assumes "flux = [] \<or> (0 < rms_noise \<and> Max (set flux) - Min (set flux) < 2 * rms_noise)"
  shows "cont_histo flux rms_noise = Inl ValueError
         \<and> (flux \<noteq> [] \<longrightarrow> number_bins_of flux rms_noise = Inr 0
                              \<and> np_histogram flux 0 = Inl ValueError)"
proof (cases "flux = []")
  case True
  then have "number_bins_of flux rms_noise = Inl ValueError"
    by (simp add: number_bins_of_def np_amax_def)
  then show ?thesis using True by (simp add: cont_histo_number_bins_error)
next
  case False
  with assms have r: "0 < rms_noise" and s: "Max (set flux) - Min (set flux) < 2 * rms_noise"
    by simp_all
  have "0 \<le> Max (set flux) - Min (set flux)"
    using Min_le_Max_list [OF False] by simp
  then have "\<lfloor>(Max (set flux) - Min (set flux)) / (2 * rms_noise)\<rfloor> = 0"
    using r s by (simp add: floor_eq_iff)
  moreover have "0 \<le> (Max (set flux) - Min (set flux)) / (2 * rms_noise)"
    using r \<open>0 \<le> Max (set flux) - Min (set flux)\<close> by simp
  ultimately have n: "number_bins_of flux rms_noise = Inr 0"
    using False r by (simp add: number_bins_of_def np_amax_eq np_amin_eq py_int_def)
  have h: "np_histogram flux 0 = Inl ValueError"
    by (simp add: np_histogram_def)
  show ?thesis using n h cont_histo_histogram_error [OF n h] by simp
qed

theorem narrow_flux_raises_ValueError_witness:
  "cont_histo [2, 2, 3] 1 = Inl ValueError \<and> number_bins_of [2, 2, 3] 1 = Inr 0
   \<and> cont_histo [] 1 = Inl ValueError"
  using narrow_flux_raises_ValueError [of "[2, 2, 3]" 1] narrow_flux_raises_ValueError [of "[]" 1]
  by simp

subsection \<open>C5: the sigma-clip estimate and its correction\<close>

text \<open>
  C5: for every non-empty flux array whose sigma-clipped samples are not all rejected, every
  positive noise and every threshold, \<^verbatim>\<open>c_sigmaclip\<close> returns as its noise the standard
  deviation of the clipped samples, and as its flux the clipped mean minus the clipped
  standard deviation when the raw mean exceeds the clipped mean by more than the noise, the
  clipped mean plus the clipped standard deviation when the raw mean is below the clipped
  mean by more than the noise, and the clipped mean otherwise. The mean and the standard
  deviation are the ones written from the words of the specification.
\<close>

theorem c_sigmaclip_correction:
  assumes "0 < rms_noise" and "flux \<noteq> []" and "sigma_clip flux threshold \<noteq> []"
  defines "raw_mean \<equiv> spec_mean flux"
    and "clipped_mean \<equiv> spec_mean (sigma_clip flux threshold)"
    and "clipped_sigma \<equiv> spec_std (sigma_clip flux threshold)"
    and "result \<equiv> c_sigmaclip sigma_clip flux rms_noise threshold"
  shows "snd result = Some clipped_sigma
       \<and> (raw_mean - clipped_mean > rms_noise \<longrightarrow> fst result = Some (clipped_mean - clipped_sigma))
       \<and> (raw_mean - clipped_mean < - rms_noise \<longrightarrow> fst result = Some (clipped_mean + clipped_sigma))
       \<and> (\<not> raw_mean - clipped_mean > rms_noise \<and> \<not> raw_mean - clipped_mean < - rms_noise
            \<longrightarrow> fst result = Some clipped_mean)"
  using assms(1)
  unfolding result_def c_sigmaclip_def raw_mean_def clipped_mean_def clipped_sigma_def
  by (simp add: Let_def np_mean_spec [OF assms(2)] np_mean_spec [OF assms(3)]
      np_std_spec [OF assms(3)] nf_less_def nf_sub_def nf_add_def)

theorem c_sigmaclip_correction_witness:
  "c_sigmaclip (\<lambda>xs t. take 2 xs) [0, 2, 10] 1 (18 / 10) = (Some 0, Some 1)
   \<and> c_sigmaclip (\<lambda>xs t. take 2 xs) [0, 2, - 11] 1 (18 / 10) = (Some 2, Some 1)
   \<and> c_sigmaclip (\<lambda>xs t. take 2 xs) [0, 2, 1] 1 (18 / 10) = (Some 1, Some 1)"
proof -
  have m: "spec_mean [0, 2] = 1" "spec_mean [0, 2, 10] = 4" "spec_mean [0, 2, - 11] = - 3"
    "spec_mean [0, 2, 1] = 1"
    by (simp_all add: spec_mean_def)
  show ?thesis
    using c_sigmaclip_correction [of 1 "[0, 2, 10]" "\<lambda>xs t. take 2 xs" "18 / 10"]
      c_sigmaclip_correction [of 1 "[0, 2, - 11]" "\<lambda>xs t. take 2 xs" "18 / 10"]
      c_sigmaclip_correction [of 1 "[0, 2, 1]" "\<lambda>xs t. take 2 xs" "18 / 10"]
    by (simp add: m spec_std_0_2 prod_eq_iff)
qed

subsection \<open>C6: the emission-absorption ratio\<close>

text \<open>
  C6: for every valid input the ratio of line 288 is a real number in \<open>[0, 1]\<close>. The ratio
  is computed exactly when the histogram has at least two bins: then \<^verbatim>\<open>cont_histo\<close> reaches
  line 288, the divisor \<^verbatim>\<open>all_number_total\<close> is not zero (the ratio is \<open>Some \<rho>\<close>, not NaN)
  and \<open>0 \<le> \<rho> \<le> 1\<close>. With fewer than two bins an exception of lines 276 to 278 ends
  the call before any ratio is computed.
\<close>

theorem ratio_in_unit_interval:
  assumes "valid_input flux rms_noise" and "number_bins_of flux rms_noise = Inr n"
  shows "(2 \<le> n \<longrightarrow> (\<exists>p \<rho> bounds. cont_histo_bounds flux rms_noise = Inr (p, Some \<rho>, bounds)
                                    \<and> 0 \<le> \<rho> \<and> \<rho> \<le> 1))
       \<and> (n < 2 \<longrightarrow> (\<exists>e. cont_histo_bounds flux rms_noise = Inl e))"
proof (intro conjI impI)
  assume "2 \<le> n"
  from cont_histo_bounds_valid [OF assms this]
  show "\<exists>p \<rho> bounds. cont_histo_bounds flux rms_noise = Inr (p, Some \<rho>, bounds) \<and> 0 \<le> \<rho> \<and> \<rho> \<le> 1"
    by blast
next
  assume "n < 2"
  from find_peak_small [OF assms this]
  show "\<exists>e. cont_histo_bounds flux rms_noise = Inl e"
    by (simp add: cont_histo_bounds_def)
qed

theorem ratio_in_unit_interval_witness:
  "valid_input [0, 3, 3, 3, 3, 3, 3, 6] 1 \<and> number_bins_of [0, 3, 3, 3, 3, 3, 3, 6] 1 = Inr 3
   \<and> (\<exists>p \<rho> bounds. cont_histo_bounds [0, 3, 3, 3, 3, 3, 3, 6] 1 = Inr (p, Some \<rho>, bounds)
                     \<and> 0 \<le> \<rho> \<and> \<rho> \<le> 1)
   \<and> cont_histo_bounds [0, 3, 3, 3, 3, 3, 3, 6] 1 =
         Inr (\<lparr>number_bins = 3, all_hist = [1, 6, 1], all_bin_edges = [0, 2, 4, 6],
                all_bins = [1, 3, 5], all_number_max = 1, bin_width = 2, all_bins_max = 3\<rparr>,
              Some (1 / 2), Some (- 7, 13))
   \<and> valid_input [0, 3] 1 \<and> number_bins_of [0, 3] 1 = Inr 1
   \<and> cont_histo_bounds [0, 3] 1 = Inl IndexError"
proof -
  have v: "valid_input [0, 3, 3, 3, 3, 3, 3, 6] 1"
    by (simp add: valid_input_def)
  have n: "number_bins_of [0, 3, 3, 3, 3, 3, 3, 6] 1 = Inr 3"
    by code_simp
  have c: "cont_histo_bounds [0, 3, 3, 3, 3, 3, 3, 6] 1 =
         Inr (\<lparr>number_bins = 3, all_hist = [1, 6, 1], all_bin_edges = [0, 2, 4, 6],
                all_bins = [1, 3, 5], all_number_max = 1, bin_width = 2, all_bins_max = 3\<rparr>,
              Some (1 / 2), Some (- 7, 13))"
    by code_simp
  have v': "valid_input [0, 3] 1"
    by (simp add: valid_input_def)
  have n': "number_bins_of [0, 3] 1 = Inr 1"
    by code_simp
  have c': "cont_histo_bounds [0, 3] 1 = Inl IndexError"
    by code_simp
  from ratio_in_unit_interval [OF v n] ratio_in_unit_interval [OF v' n'] v n c v' n' c'
  show ?thesis by simp
qed

subsection \<open>C7: the initial guess of the two Gaussian fits\<close>

text \<open>
  C7: whenever \<^verbatim>\<open>cont_histo\<close> returns, \<^verbatim>\<open>c_Gaussian\<close> calls the least-squares routine twice,
  on the full histogram and on the windowed one, both times with the same initial guess:
  the amplitude is the maximum count of the full histogram, the centre is the mean of
  \<^verbatim>\<open>sel_flux\<close> and the width is the standard deviation of \<^verbatim>\<open>sel_flux\<close> (numbers, not NaN);
  the result is the centre and the width of each solution.
\<close>

theorem gaussian_fits_share_initial_guess:
  assumes "cont_histo flux rms_noise = Inr (bins, hist, sel_bins, sel_hist, sel_flux)"
  defines "init \<equiv> (Some (real (Max (set hist))), Some (spec_mean sel_flux),
                    Some (spec_std sel_flux))"
  shows "c_Gaussian leastsq flux rms_noise =
           Inr (fst (snd (fst (leastsq init (bins, hist)))),
                snd (snd (fst (leastsq init (bins, hist)))),
                fst (snd (fst (leastsq init (sel_bins, sel_hist)))),
                snd (snd (fst (leastsq init (sel_bins, sel_hist)))))"
  unfolding init_def by (rule c_Gaussian_result [OF assms(1)])

theorem gaussian_fits_share_initial_guess_witness:
  "cont_histo [0, 3, 3, 3, 3, 3, 3, 6] 1 =
     Inr ([1, 3, 5], [1, 6, 1], [1, 3, 5], [1, 6, 1], [0, 3, 3, 3, 3, 3, 3, 6])
   \<and> c_Gaussian (\<lambda>init xy. (init, 1)) [0, 3, 3, 3, 3, 3, 3, 6] 1 =
       Inr (Some 3, Some (3 / 2), Some 3, Some (3 / 2))
   \<and> c_Gaussian (\<lambda>init xy. ((None, fst init, None), 1)) [0, 3, 3, 3, 3, 3, 3, 6] 1 =
       Inr (Some 6, None, Some 6, None)"
  using gaussian_fits_share_initial_guess [OF cont_histo_example, of "\<lambda>init xy. (init, 1)"]
    gaussian_fits_share_initial_guess [OF cont_histo_example, of "\<lambda>init xy. ((None, fst init, None), 1)"]
  by (simp add: cont_histo_example spec_mean_example spec_std_example)

subsection \<open>C8: a fit that does not converge\<close>

text \<open>
  C8, as stated, fails: with a least-squares routine that reports failure (the flag
  \<open>ier = 5\<close>) and hands back the initial guess, \<^verbatim>\<open>c_Gaussian\<close> returns the centre and the
  width of that guess as its estimate and raises nothing.
\<close>

theorem C8_counterexample:
  "c_Gaussian (\<lambda>init xy. (init, 5)) [0, 3, 3, 3, 3, 3, 3, 6] 1 =
     Inr (Some 3, Some (3 / 2), Some 3, Some (3 / 2))
   \<and> c_Gaussian (\<lambda>init xy. (init, 5)) [0, 3, 3, 3, 3, 3, 3, 6] 1 \<noteq> Inl FitDidNotConvergeError"
  using c_Gaussian_result [OF cont_histo_example, of "\<lambda>init xy. (init, 5)"]
  by (simp add: spec_mean_example spec_std_example)

text \<open>
  C8, amended: \<^verbatim>\<open>c_Gaussian\<close> does not look at the convergence flag of the least-squares
  routine: it never raises FitDidNotConvergeError, and its result is the same whatever flag
  the two fits report, namely the centre and the width of the parameters they hand back.
\<close>

theorem c_Gaussian_ignores_convergence_flag:
  "c_Gaussian leastsq flux rms_noise \<noteq> Inl FitDidNotConvergeError
   \<and> c_Gaussian (\<lambda>init xy. (fst (leastsq init xy), ier init xy)) flux rms_noise
       = c_Gaussian leastsq flux rms_noise"
proof
  show "c_Gaussian leastsq flux rms_noise \<noteq> Inl FitDidNotConvergeError"
  proof
    assume "c_Gaussian leastsq flux rms_noise = Inl FitDidNotConvergeError"
    then have "cont_histo flux rms_noise = Inl FitDidNotConvergeError"
      by (rule c_Gaussian_error)
    then have "python_error FitDidNotConvergeError"
      by (rule cont_histo_python_error)
    then show False by (simp add: python_error_def)
  qed
next
  show "c_Gaussian (\<lambda>init xy. (fst (leastsq init xy), ier init xy)) flux rms_noise
       = c_Gaussian leastsq flux rms_noise"
    by (simp add: c_Gaussian_def Let_def)
qed

subsection \<open>C9: the percentile 50 is the median\<close>

text \<open>
  C9: for every non-empty flux array, \<^verbatim>\<open>c_percent(flux, 50)\<close> is the median of the array (a
  number, not NaN), and whenever \<^verbatim>\<open>c_median(flux, rms_noise)\<close> returns, its first component
  is that value.
\<close>

theorem percentile_50_equals_median:
  assumes "flux \<noteq> []"
  shows "c_percent flux 50 = Inr (np_median flux)
       \<and> np_median flux \<noteq> None
       \<and> (\<forall>median_flux mediansel_flux.
             c_median flux rms_noise = Inr (median_flux, mediansel_flux)
             \<longrightarrow> c_percent flux 50 = Inr median_flux)"
proof (intro conjI allI impI)
  show p: "c_percent flux 50 = Inr (np_median flux)"
    unfolding c_percent_def by (rule percentile_50_median [OF assms])
  show "np_median flux \<noteq> None"
    by (rule np_median_Some [OF assms])
  fix median_flux mediansel_flux
  assume "c_median flux rms_noise = Inr (median_flux, mediansel_flux)"
  then have "median_flux = np_median flux"
    unfolding c_median_def
    by (cases "cont_histo flux rms_noise") (auto split: prod.splits)
  with p show "c_percent flux 50 = Inr median_flux" by simp
qed

theorem percentile_50_equals_median_witness:
  "c_percent [5, 1, 2] 50 = Inr (Some 2)
   \<and> np_median [5, 1, 2] = Some 2
   \<and> c_percent [0, 3, 3, 3, 3, 3, 3, 6] 50 = Inr (Some 3)
   \<and> c_median [0, 3, 3, 3, 3, 3, 3, 6] 1 = Inr (Some 3, Some 3)"
proof -
  have m: "np_median [5, 1, 2] = Some 2"
    by code_simp
  have c: "c_median [0, 3, 3, 3, 3, 3, 3, 6] 1 = Inr (Some 3, Some 3)"
    by code_simp
  from percentile_50_equals_median [of "[5, 1, 2]" 1] m
  have a: "c_percent [5, 1, 2] 50 = Inr (Some 2)" by simp
  from percentile_50_equals_median [of "[0, 3, 3, 3, 3, 3, 3, 6]" 1] c
  have b: "c_percent [0, 3, 3, 3, 3, 3, 3, 6] 50 = Inr (Some 3)" by blast
  from a m b c show ?thesis by (intro conjI)
qed

subsection \<open>C10: the selected flux samples are never empty\<close>

text \<open>
  C10: for every valid input on which \<^verbatim>\<open>cont_histo\<close> returns (it then returns through the
  path with at least 3 selected bins, the other path always raises), the peak bin holds at
  least one flux sample, every flux sample of the peak bin lies inside the final flux
  interval \<open>[lower_all_bins, upper_all_bins]\<close> and so belongs to \<^verbatim>\<open>sel_flux\<close>, which is therefore
  not empty; the windowed mean of \<^verbatim>\<open>c_mean\<close> and the windowed median of \<^verbatim>\<open>c_median\<close> are
  numbers, not NaN.
\<close>

theorem selected_flux_nonempty:
  assumes "valid_input flux rms_noise"
    and "cont_histo flux rms_noise = Inr (bins, hist, sel_bins, sel_hist, sel_flux)"
  shows "sel_flux \<noteq> []
       \<and> (\<exists>p ratio w.
             cont_histo_window flux rms_noise = Inr (p, ratio, w)
           \<and> sel_flux = filter (\<lambda>x. x \<ge> lower_all_bins w \<and> x \<le> upper_all_bins w) flux
           \<and> (\<exists>x\<in>set flux.
                 bin_of (Min (set flux)) (Max (set flux)) (nat (number_bins p)) x = all_number_max p)
           \<and> (\<forall>x\<in>set flux.
                 bin_of (Min (set flux)) (Max (set flux)) (nat (number_bins p)) x = all_number_max p
                 \<longrightarrow> lower_all_bins w \<le> x \<and> x \<le> upper_all_bins w \<and> x \<in> set sel_flux))
       \<and> (\<exists>\<mu>. c_mean flux rms_noise = Inr (np_mean flux, Some \<mu>))
       \<and> (\<exists>\<mu>. c_median flux rms_noise = Inr (np_median flux, Some \<mu>))"
proof -
  from cont_histo_char [OF assms(2)] obtain n m \<rho> a b where
    n3: "3 \<le> n"
    and cw: "cont_histo_window flux rms_noise =
             Inr (peak_at flux n m, Some \<rho>,
                  \<lparr>lower_all_bins = bin_centre flux n m - real a * bin_width_of flux n,
                   upper_all_bins = bin_centre flux n m + real b * bin_width_of flux n,
                   sel_bins_array = map int [sel_lo m a..<sel_hi n m b]\<rparr>)"
    and h: "(bins, hist, sel_bins, sel_hist, sel_flux) =
               (map (bin_centre flux n) [0..<nat n], bin_counts flux n,
                  take (sel_hi n m b - sel_lo m a) (drop (sel_lo m a) (map (bin_centre flux n) [0..<nat n])),
                  take (sel_hi n m b - sel_lo m a) (drop (sel_lo m a) (bin_counts flux n)),
                  filter (\<lambda>x. x \<ge> bin_centre flux n m - real a * bin_width_of flux n
                              \<and> x \<le> bin_centre flux n m + real b * bin_width_of flux n) flux)"
    and ab: "4 \<le> a" "4 \<le> b"
    and m: "m < nat n" "0 < bin_counts flux n ! m"
    by blast
  let ?p = "peak_at flux n m"
  let ?lo = "bin_centre flux n m - real a * bin_width_of flux n"
  let ?hi = "bin_centre flux n m + real b * bin_width_of flux n"
  let ?w = "\<lparr>lower_all_bins = ?lo, upper_all_bins = ?hi,
             sel_bins_array = map int [sel_lo m a..<sel_hi n m b]\<rparr>"
  have n0: "0 < n" using n3 by simp
  have sf: "sel_flux = filter (\<lambda>x. x \<ge> ?lo \<and> x \<le> ?hi) flux"
    using h by simp
  have 1: "sel_flux = filter (\<lambda>x. x \<ge> lower_all_bins ?w \<and> x \<le> upper_all_bins ?w) flux"
    using sf by simp
  have 2: "\<exists>x\<in>set flux.
             bin_of (Min (set flux)) (Max (set flux)) (nat (number_bins ?p)) x = all_number_max ?p"
    using peak_bin_sample_ex [OF m] by simp
  have 3: "\<forall>x\<in>set flux.
             bin_of (Min (set flux)) (Max (set flux)) (nat (number_bins ?p)) x = all_number_max ?p
             \<longrightarrow> lower_all_bins ?w \<le> x \<and> x \<le> upper_all_bins ?w \<and> x \<in> set sel_flux"
  proof (intro ballI impI)
    fix x assume x: "x \<in> set flux"
      "bin_of (Min (set flux)) (Max (set flux)) (nat (number_bins ?p)) x = all_number_max ?p"
    then have "bin_of (Min (set flux)) (Max (set flux)) (nat n) x = m" by simp
    from peak_sample_in_window [OF assms(1) n0 m(1) x(1) this ab]
    have "?lo \<le> x \<and> x \<le> ?hi" .
    then show "lower_all_bins ?w \<le> x \<and> x \<le> upper_all_bins ?w \<and> x \<in> set sel_flux"
      using x(1) sf by simp
  qed
  from 2 3 obtain x where "x \<in> set sel_flux" by blast
  then have ne: "sel_flux \<noteq> []" by auto
  have 4: "\<exists>\<mu>. c_mean flux rms_noise = Inr (np_mean flux, Some \<mu>)"
    using ne by (simp add: c_mean_def assms(2) np_mean_def)
  have 5: "\<exists>\<mu>. c_median flux rms_noise = Inr (np_median flux, Some \<mu>)"
  proof -
    from np_median_Some [OF ne] obtain \<mu> where "np_median sel_flux = Some \<mu>"
      by (cases "np_median sel_flux") simp_all
    then have "c_median flux rms_noise = Inr (np_median flux, Some \<mu>)"
      by (simp add: c_median_def assms(2))
    then show ?thesis ..
  qed
  have "\<exists>p ratio w.
             cont_histo_window flux rms_noise = Inr (p, ratio, w)
           \<and> sel_flux = filter (\<lambda>x. x \<ge> lower_all_bins w \<and> x \<le> upper_all_bins w) flux
           \<and> (\<exists>x\<in>set flux.
                 bin_of (Min (set flux)) (Max (set flux)) (nat (number_bins p)) x = all_number_max p)
           \<and> (\<forall>x\<in>set flux.
                 bin_of (Min (set flux)) (Max (set flux)) (nat (number_bins p)) x = all_number_max p
                 \<longrightarrow> lower_all_bins w \<le> x \<and> x \<le> upper_all_bins w \<and> x \<in> set sel_flux)"
    apply (rule exI [of _ ?p])
    apply (rule exI [of _ "Some \<rho>"])
    apply (rule exI [of _ ?w])
    apply (intro conjI cw 1 2 3)
    done
  with ne 4 5 show ?thesis by (intro conjI)
qed

theorem selected_flux_nonempty_witness:
  "valid_input [0, 3, 3, 3, 3, 3, 3, 6] 1
   \<and> cont_histo [0, 3, 3, 3, 3, 3, 3, 6] 1 =
        Inr ([1, 3, 5], [1, 6, 1], [1, 3, 5], [1, 6, 1], [0, 3, 3, 3, 3, 3, 3, 6])
   \<and> [0, 3, 3, 3, 3, 3, 3, 6] \<noteq> ([] :: real list)
   \<and> c_mean [0, 3, 3, 3, 3, 3, 3, 6] 1 = Inr (Some 3, Some 3)
   \<and> c_median [0, 3, 3, 3, 3, 3, 3, 6] 1 = Inr (Some 3, Some 3)"
proof -
  have v: "valid_input [0, 3, 3, 3, 3, 3, 3, 6] 1"
    by (simp add: valid_input_def)
  have c: "cont_histo [0, 3, 3, 3, 3, 3, 3, 6] 1 =
        Inr ([1, 3, 5], [1, 6, 1], [1, 3, 5], [1, 6, 1], [0, 3, 3, 3, 3, 3, 3, 6])"
    by code_simp
  have m: "c_mean [0, 3, 3, 3, 3, 3, 3, 6] 1 = Inr (Some 3, Some 3)"
    by code_simp
  have d: "c_median [0, 3, 3, 3, 3, 3, 3, 6] 1 = Inr (Some 3, Some 3)"
    by code_simp
  from selected_flux_nonempty [OF v c] v c m d show ?thesis
    by simp
qed

end
